theory Spec2Isabelle
  imports Complex_Main
begin

section \<open>Grid layout: data model\<close>

text \<open>
  The panel types of \<^verbatim>\<open>ConfigurableLayout.tsx\<close>. Grid coordinates are the integers
  of react-grid-layout cells; they are modelled as \<open>int\<close> because the older
  \<^verbatim>\<open>addItem\<close> subtracts the item height from a bottom edge and can go below zero.
  The record fields carry a prefix: \<open>x\<close>, \<open>y\<close>, \<open>w\<close>, \<open>h\<close> and \<open>id\<close> would
  shadow variables and the identity function.
\<close>

datatype ConfigurableView =
  FIELD_VIEW | GRAPH_VIEW | CONFIG_VIEW | TELEMETRY_VIEW | CAMERA_VIEW | OPMODE_VIEW

record GridItemLayoutType =
  layout_x :: int
  layout_y :: int
  layout_w :: int
  layout_h :: int
  isDraggable :: bool
  isResizable :: bool

record GridItemType =
  item_id :: string
  view :: ConfigurableView
  layout :: GridItemLayoutType

section \<open>History reducer\<close>

text \<open>
  The commands logged in \<^verbatim>\<open>actionHistory\<close>; the constructors carry a prefix because
  \<^verbatim>\<open>APPEND\<close> is an infix of the ML the code generator prints to.
\<close>

datatype StateHistoryCommand = CmdAPPEND | CmdUNDO | CmdREDO

datatype StateHistoryAction = Append "GridItemType list" | Undo | Redo

text \<open>
  \<open>currentHead\<close> is read from an array by index, so it can be \<^verbatim>\<open>undefined\<close>:
  \<open>None\<close> stands for that value.
\<close>

record StateHistoryReducerState =
  gridStateHistory :: "GridItemType list list"
  actionHistory :: "StateHistoryCommand list"
  currentHistoryPosition :: int
  currentHead :: "GridItemType list option"

text \<open>JavaScript's \<^verbatim>\<open>xs[i]\<close>: \<^verbatim>\<open>undefined\<close> outside \<open>0 .. length - 1\<close>.\<close>

definition js_index :: "'a list \<Rightarrow> int \<Rightarrow> 'a option" where
  "js_index xs i = (if 0 \<le> i \<and> i < int (length xs) then Some (xs ! nat i) else None)"

text \<open>
  \<^verbatim>\<open>xs.splice(start, deleteCount)\<close>, as the array it leaves behind: a negative start
  counts from the end, and both arguments are clamped to the array.
\<close>

definition splice :: "'a list \<Rightarrow> int \<Rightarrow> int \<Rightarrow> 'a list" where
  "splice xs start deleteCount =
     (let len = int (length xs);
          actualStart = (if start < 0 then max (len + start) 0 else min start len);
          actualDeleteCount = min (max deleteCount 0) (len - actualStart)
      in take (nat actualStart) xs @ drop (nat (actualStart + actualDeleteCount)) xs)"

text \<open>
  The flag \<^verbatim>\<open>shouldAppend\<close> of the APPEND branch. lodash's \<^verbatim>\<open>isEqual\<close> is deep
  equality, which is HOL's equality on these types; comparing \<^verbatim>\<open>undefined\<close> with
  the payload (an array) is false.
\<close>

definition shouldAppend :: "StateHistoryReducerState \<Rightarrow> GridItemType list \<Rightarrow> bool" where
  "shouldAppend state payload =
     (if length (gridStateHistory state) = 0 then True
      else
        (let lastAction =
               js_index (actionHistory state) (int (length (actionHistory state)) - 1);
             s1 = (if js_index (gridStateHistory state) (currentHistoryPosition state)
                        = Some payload
                   then False else True);
             s2 = (if lastAction = Some CmdUNDO \<or> lastAction = Some CmdREDO
                   then (if currentHead state = Some payload then False else s1)
                   else s1)
         in s2))"

fun stateHistoryReducer ::
  "StateHistoryReducerState \<Rightarrow> StateHistoryAction \<Rightarrow> StateHistoryReducerState" where
  "stateHistoryReducer state (Append payload) =
     (if shouldAppend state payload then
        (let copied = gridStateHistory state;
             spliced =
               (if currentHistoryPosition state \<noteq> int (length copied) - 1
                then splice copied (currentHistoryPosition state + 1)
                       (int (length copied) - currentHistoryPosition state)
                else copied);
             newGridStateHistory = spliced @ [payload];
             newActionHistory = actionHistory state @ [CmdAPPEND];
             newCurrentHistoryPosition = currentHistoryPosition state + 1;
             newCurrentHead = js_index newGridStateHistory newCurrentHistoryPosition
         in \<lparr> gridStateHistory = newGridStateHistory,
              actionHistory = newActionHistory,
              currentHistoryPosition = newCurrentHistoryPosition,
              currentHead = newCurrentHead \<rparr>)
      else state)"
| "stateHistoryReducer state Undo =
     (if currentHistoryPosition state > 0 then
        (let newActionHistory = actionHistory state @ [CmdUNDO];
             newCurrentHistoryPosition = currentHistoryPosition state - 1;
             newCurrentHead = js_index (gridStateHistory state) newCurrentHistoryPosition
         in \<lparr> gridStateHistory = gridStateHistory state,
              actionHistory = newActionHistory,
              currentHistoryPosition = newCurrentHistoryPosition,
              currentHead = newCurrentHead \<rparr>)
      else state)"
| "stateHistoryReducer state Redo =
     (if currentHistoryPosition state < int (length (gridStateHistory state)) - 1 then
        (let newActionHistory = actionHistory state @ [CmdREDO];
             newCurrentHistoryPosition = currentHistoryPosition state + 1;
             newCurrentHead = js_index (gridStateHistory state) newCurrentHistoryPosition
         in \<lparr> gridStateHistory = gridStateHistory state,
              actionHistory = newActionHistory,
              currentHistoryPosition = newCurrentHistoryPosition,
              currentHead = newCurrentHead \<rparr>)
      else state)"

text \<open>The state \<^verbatim>\<open>useReducer\<close> starts from.\<close>

definition initialState :: StateHistoryReducerState where
  "initialState = \<lparr> gridStateHistory = [], actionHistory = [],
                    currentHistoryPosition = - 1, currentHead = Some [] \<rparr>"

text \<open>Dispatching a list of APPEND payloads, \<open>n\<close> UNDOs, \<open>n\<close> REDOs.\<close>

fun appends :: "GridItemType list list \<Rightarrow> StateHistoryReducerState \<Rightarrow> StateHistoryReducerState" where
  "appends [] state = state"
| "appends (p # ps) state = appends ps (stateHistoryReducer state (Append p))"

fun undos :: "nat \<Rightarrow> StateHistoryReducerState \<Rightarrow> StateHistoryReducerState" where
  "undos 0 state = state"
| "undos (Suc n) state = undos n (stateHistoryReducer state Undo)"

fun redos :: "nat \<Rightarrow> StateHistoryReducerState \<Rightarrow> StateHistoryReducerState" where
  "redos 0 state = state"
| "redos (Suc n) state = redos n (stateHistoryReducer state Redo)"

text \<open>
  The shape of a history that only APPENDs have touched: the cursor is on the last
  snapshot, and the head is that snapshot (or the initial empty grid).
\<close>

definition at_end :: "StateHistoryReducerState \<Rightarrow> bool" where
  "at_end state \<longleftrightarrow>
     currentHistoryPosition state = int (length (gridStateHistory state)) - 1 \<and>
     (if gridStateHistory state = [] then True
      else currentHead state = Some (last (gridStateHistory state)))"

text \<open>A history with a valid cursor whose head is the snapshot under the cursor.\<close>

definition active :: "StateHistoryReducerState \<Rightarrow> bool" where
  "active state \<longleftrightarrow>
     0 \<le> currentHistoryPosition state \<and>
     currentHistoryPosition state < int (length (gridStateHistory state)) \<and>
     currentHead state =
       js_index (gridStateHistory state) (currentHistoryPosition state)"

section \<open>Panel placement\<close>

subsection \<open>\<^verbatim>\<open>addItem\<close> with collision refinement (the version that uses \<^verbatim>\<open>useUndoHistory\<close>)\<close>

definition GRID_COL :: int where "GRID_COL = 6"
definition ITEM_WIDTH :: int where "ITEM_WIDTH = 2"
definition ITEM_HEIGHT :: int where "ITEM_HEIGHT = 4"

datatype error =
  ArrayLengthMismatch  \<comment> \<open>\<^verbatim>\<open>throw new Error('cannot compare arrays with different lengths')\<close>\<close>
| NotAPair  \<comment> \<open>the reduced array does not destructure into two numbers\<close>

text \<open>
  The loop of \<^verbatim>\<open>maxArray\<close>: the first index at which the arrays differ decides, and
  \<open>a\<close> is returned when none does. The last two arguments are the parts of \<open>a\<close>
  and \<open>b\<close> from index \<open>i\<close> on.
\<close>

fun maxArray_from :: "int list \<Rightarrow> int list \<Rightarrow> int list \<Rightarrow> int list \<Rightarrow> int list" where
  "maxArray_from a b (p # ra) (q # rb) =
     (if p > q then a else if q > p then b else maxArray_from a b ra rb)"
| "maxArray_from a b _ _ = a"

definition maxArray :: "int list \<Rightarrow> int list \<Rightarrow> error + int list" where
  "maxArray a b =
     (if length a \<noteq> length b then Inl ArrayLengthMismatch
      else Inr (maxArray_from a b a b))"

text \<open>\<^verbatim>\<open>xs.reduce(maxArray, acc)\<close>: an exception of the callback ends the reduction.\<close>

fun reduce_maxArray :: "int list list \<Rightarrow> int list \<Rightarrow> error + int list" where
  "reduce_maxArray [] acc = Inr acc"
| "reduce_maxArray (e # es) acc =
     (case maxArray acc e of
        Inl err \<Rightarrow> Inl err
      | Inr acc' \<Rightarrow> reduce_maxArray es acc')"

text \<open>Both arguments are two-element array literals at the only call site.\<close>

definition intervalsIntersect :: "int \<times> int \<Rightarrow> int \<times> int \<Rightarrow> bool" where
  "intervalsIntersect ab cd = (max (fst ab) (fst cd) < min (snd ab) (snd cd))"

text \<open>
  \<^verbatim>\<open>addItem\<close> of the component, as a function of what it reads: the current grid
  items, the lock flag, the identifier \<^verbatim>\<open>uuidv4()\<close> returns, and the view. The result
  is the list it hands to \<^verbatim>\<open>setGrid\<close>; its last element is the new panel.
\<close>

definition addItem ::
  "GridItemType list \<Rightarrow> bool \<Rightarrow> string \<Rightarrow> ConfigurableView \<Rightarrow> error + GridItemType list" where
  "addItem gridItems isLayoutLocked uuid item =
     (case reduce_maxArray
             (map (\<lambda>e. [layout_y (layout e) + layout_h (layout e),
                         layout_x (layout e) + layout_w (layout e)]) gridItems)
             [0, 0] of
        Inl err \<Rightarrow> Inl err
      | Inr [botMin, left] \<Rightarrow>
          (let wrap = (left + ITEM_WIDTH > GRID_COL);
               newItemLeft = (if wrap then 0 else left);
               newItemBotMin = (if wrap then botMin + ITEM_HEIGHT else botMin);
               newItemTopMin =
                 foldl (\<lambda>bottom acc. max bottom acc) 0
                   (map (\<lambda>e. layout_y (layout e) + layout_h (layout e))
                      (filter (\<lambda>e. intervalsIntersect
                                      (newItemLeft, newItemLeft + ITEM_WIDTH)
                                      (layout_x (layout e),
                                       layout_x (layout e) + layout_w (layout e)))
                         gridItems));
               newItemTop = max (newItemBotMin - ITEM_HEIGHT) newItemTopMin
           in Inr (gridItems @
                [\<lparr> item_id = uuid, view = item,
                    layout = \<lparr> layout_x = newItemLeft, layout_y = newItemTop,
                               layout_w = ITEM_WIDTH, layout_h = ITEM_HEIGHT,
                               isDraggable = \<not> isLayoutLocked,
                               isResizable = \<not> isLayoutLocked \<rparr> \<rparr>]))
      | Inr _ \<Rightarrow> Inl NotAPair)"

subsection \<open>\<^verbatim>\<open>addItem\<close> of \<^verbatim>\<open>dash/src/components/ConfigurableLayout.tsx\<close>\<close>

text \<open>\<^verbatim>\<open>Math.max(...xs)\<close> on integers; \<open>None\<close> is \<^verbatim>\<open>-Infinity\<close>, its value on no arguments.\<close>

fun Math_max :: "int list \<Rightarrow> int option" where
  "Math_max [] = None"
| "Math_max (v # rest) = (case Math_max rest of None \<Rightarrow> Some v | Some m \<Rightarrow> Some (max v m))"

text \<open>
  The payload this \<^verbatim>\<open>addItem\<close> dispatches with APPEND. \<^verbatim>\<open>COLS\<close>, \<^verbatim>\<open>ITEM_WIDTH\<close> and
  \<^verbatim>\<open>ITEM_HEIGHT\<close> are its local constants 6, 2 and 4. The result is \<open>None\<close> where
  \<^verbatim>\<open>maxX\<close> would be \<^verbatim>\<open>-Infinity\<close>, a coordinate the integer grid has no value for.
\<close>

definition addItem_dash ::
  "GridItemType list \<Rightarrow> bool \<Rightarrow> string \<Rightarrow> ConfigurableView \<Rightarrow> GridItemType list option" where
  "addItem_dash currentHead' isLayoutLocked uuid item =
     (let COLS = 6;
          gridMaxY0 =
            (case Math_max (map (\<lambda>e. layout_y (layout e) + layout_h (layout e)) currentHead') of
               None \<Rightarrow> 0 | Some m \<Rightarrow> m);
          placed =
            (if length currentHead' \<noteq> 0 then
               (case Math_max
                       (map (\<lambda>e. layout_x (layout e) + layout_w (layout e))
                          (filter (\<lambda>e. layout_y (layout e) + layout_h (layout e) = gridMaxY0)
                             currentHead')) of
                  None \<Rightarrow> None
                | Some maxX \<Rightarrow>
                    (if maxX \<le> COLS - ITEM_WIDTH then Some (maxX, gridMaxY0 - ITEM_HEIGHT)
                     else Some (0, gridMaxY0)))
             else Some (0, gridMaxY0))
      in case placed of
           None \<Rightarrow> None
         | Some (desiredX, gridMaxY) \<Rightarrow>
             Some (currentHead' @
               [\<lparr> item_id = uuid, view = item,
                   layout = \<lparr> layout_x = desiredX, layout_y = gridMaxY,
                              layout_w = ITEM_WIDTH, layout_h = ITEM_HEIGHT,
                              isDraggable = \<not> isLayoutLocked,
                              isResizable = \<not> isLayoutLocked \<rparr> \<rparr>]))"

text \<open>
  A grid item with both flags set, and the tall default template of the source with
  fixed identifiers (the source draws them with \<^verbatim>\<open>uuidv4()\<close>).
\<close>

definition mk_item :: "string \<Rightarrow> ConfigurableView \<Rightarrow> int \<Rightarrow> int \<Rightarrow> int \<Rightarrow> int \<Rightarrow> GridItemType" where
  "mk_item i v px py pw ph =
     \<lparr> item_id = i, view = v,
       layout = \<lparr> layout_x = px, layout_y = py, layout_w = pw, layout_h = ph,
                  isDraggable = True, isResizable = True \<rparr> \<rparr>"

definition DEFAULT_GRID_TALL :: "GridItemType list" where
  "DEFAULT_GRID_TALL =
     [mk_item ''a'' FIELD_VIEW 0 0 2 18,
      mk_item ''b'' GRAPH_VIEW 2 0 2 18,
      mk_item ''c'' CONFIG_VIEW 4 0 2 14,
      mk_item ''d'' TELEMETRY_VIEW 4 11 2 4]"

subsection \<open>Rectangles\<close>

text \<open>
  Two half-open integer spans \<open>[a, a + m)\<close> and \<open>[b, b + n)\<close> are disjoint when they
  share no cell; two panels overlap when neither their horizontal nor their vertical
  spans are disjoint.
\<close>

definition span :: "int \<Rightarrow> int \<Rightarrow> int set" where
  "span a m = {a ..< a + m}"

definition overlaps :: "GridItemLayoutType \<Rightarrow> GridItemLayoutType \<Rightarrow> bool" where
  "overlaps p q \<longleftrightarrow>
     span (layout_x p) (layout_w p) \<inter> span (layout_x q) (layout_w q) \<noteq> {} \<and>
     span (layout_y p) (layout_h p) \<inter> span (layout_y q) (layout_h q) \<noteq> {}"

text \<open>
  The quantities the placement is described with: the largest bottom edge, the largest
  right edge among the panels whose bottom edge is that one (both 0 when there is no
  panel), and the lowest top that clears every panel whose horizontal span meets the
  new item's span \<open>[left, left + ITEM_WIDTH)\<close>.
\<close>

definition bottomMost :: "GridItemType list \<Rightarrow> int" where
  "bottomMost ps =
     (if ps = [] then 0
      else Max ((\<lambda>e. layout_y (layout e) + layout_h (layout e)) ` set ps))"

definition rightEdgeAtBottom :: "GridItemType list \<Rightarrow> int" where
  "rightEdgeAtBottom ps =
     (if ps = [] then 0
      else Max ((\<lambda>e. layout_x (layout e) + layout_w (layout e)) `
             {e \<in> set ps. layout_y (layout e) + layout_h (layout e) = bottomMost ps}))"

definition y_min :: "GridItemType list \<Rightarrow> int \<Rightarrow> int" where
  "y_min ps left =
     Max (insert 0 ((\<lambda>e. layout_y (layout e) + layout_h (layout e)) `
            {e \<in> set ps. span left ITEM_WIDTH \<inter>
                             span (layout_x (layout e)) (layout_w (layout e)) \<noteq> {}}))"

section \<open>Graph: sample buffer, clock anchor, pruning\<close>

text \<open>
  A timestamp or a clock value is modelled as \<open>NaN\<close> or a real: the properties of the
  buffer turn on how \<^verbatim>\<open>NaN\<close> behaves in arithmetic and comparisons, and on the order
  of finite values. Doubles with their rounding and the two infinities are modelled
  further down, for the axis, where the rounding decides what the code does.
\<close>

datatype number = NaN | Fin real

fun isNaN :: "number \<Rightarrow> bool" where
  "isNaN NaN = True"
| "isNaN (Fin _) = False"

fun num_add :: "number \<Rightarrow> number \<Rightarrow> number" where
  "num_add (Fin a) (Fin b) = Fin (a + b)"
| "num_add _ _ = NaN"

fun num_sub :: "number \<Rightarrow> number \<Rightarrow> number" where
  "num_sub (Fin a) (Fin b) = Fin (a - b)"
| "num_sub _ _ = NaN"

text \<open>\<^verbatim>\<open>a < b\<close> and \<^verbatim>\<open>a <= b\<close>: false as soon as one side is \<^verbatim>\<open>NaN\<close>.\<close>

fun num_less :: "number \<Rightarrow> number \<Rightarrow> bool" where
  "num_less (Fin a) (Fin b) = (a < b)"
| "num_less _ _ = False"

fun num_le :: "number \<Rightarrow> number \<Rightarrow> bool" where
  "num_le (Fin a) (Fin b) = (a \<le> b)"
| "num_le _ _ = False"

text \<open>The options the buffer and the axis read; the others only style the drawing.\<close>

record Options =
  windowMs :: real
  colors :: "string list"
  maxTicks :: real

definition DEFAULT_OPTIONS :: Options where
  "DEFAULT_OPTIONS =
     \<lparr> windowMs = 5000,
       colors = [''#2979ff'', ''#dd2c00'', ''#4caf50'', ''#7c4dff'', ''#ffa000''],
       maxTicks = 7 \<rparr>"

text \<open>
  One entry of \<^verbatim>\<open>this.data\<close>. \<open>ts\<close> can hold \<^verbatim>\<open>NaN\<close> (a sample without a time);
  \<open>vs\<close> cannot, because \<^verbatim>\<open>add\<close> skips a \<^verbatim>\<open>NaN\<close> value before pushing it. The colour
  is \<^verbatim>\<open>undefined\<close> (\<open>None\<close>) when the palette is empty.
\<close>

record Series =
  ts :: "number list"
  vs :: "real list"
  color :: "string option"

text \<open>
  \<^verbatim>\<open>this.data\<close> is a plain object. Its own keys keep their insertion order: \<open>data\<close>
  is an association list with one entry per name. (JavaScript enumerates keys that
  look like array indices first; the order of the keys only decides the order of the
  legend and the colour of a line.)

  One name never becomes an own key. \<^verbatim>\<open>__proto__\<close> is an accessor that
  \<^verbatim>\<open>this.data\<close> inherits from \<^verbatim>\<open>Object.prototype\<close>: assigning an object to
  \<^verbatim>\<open>this.data['__proto__']\<close> makes that object the prototype of \<^verbatim>\<open>this.data\<close>, and
  reading it returns the prototype. \<open>data_proto\<close> is the series installed in this way,
  \<open>None\<close> as long as the prototype is \<^verbatim>\<open>Object.prototype\<close> itself.
  \<^verbatim>\<open>hasOwnProperty\<close>, \<^verbatim>\<open>Object.keys\<close> and \<^verbatim>\<open>Object.values\<close> see the own keys only.
\<close>

record Graph =
  options :: Options
  data :: "(string \<times> Series) list"
  data_proto :: "Series option"
  beginGraphNowMs :: number
  beginRenderTimeMs :: number

type_synonym sample = "(string \<times> number) list"

text \<open>The own keys of \<^verbatim>\<open>this.data\<close> together with its prototype.\<close>

type_synonym buffers = "(string \<times> Series) list \<times> Series option"

definition reset :: "Options \<Rightarrow> Graph" where
  "reset opts =
     \<lparr> options = opts, data = [], data_proto = None,
       beginGraphNowMs = NaN, beginRenderTimeMs = NaN \<rparr>"

text \<open>The reduction that reads a sample's time: the last pair named \<^verbatim>\<open>time\<close> wins.\<close>

definition sample_time :: "sample \<Rightarrow> number" where
  "sample_time smp = foldl (\<lambda>acc (name, value). if name = ''time'' then value else acc) NaN smp"

definition pick_color :: "Options \<Rightarrow> nat \<Rightarrow> string option" where
  "pick_color opts n =
     (if colors opts = [] then None else Some (colors opts ! (n mod length (colors opts))))"

text \<open>
  The body of the inner loop of \<^verbatim>\<open>add\<close>, for one pair of a sample with time \<open>t\<close>.
  For the name \<^verbatim>\<open>__proto__\<close> the test \<^verbatim>\<open>hasOwnProperty\<close> is false every time, the
  assignment replaces the prototype by a fresh series, and the two pushes go to that
  series: the own keys are unchanged and the series holds the last pair alone.
\<close>

definition add_pair :: "Options \<Rightarrow> number \<Rightarrow> buffers \<Rightarrow> string \<times> number \<Rightarrow> buffers" where
  "add_pair opts t b nv =
     (case b of (d, proto) \<Rightarrow>
      case nv of (name, value) \<Rightarrow>
        if name = ''time'' then b
        else (case value of
                NaN \<Rightarrow> b
              | Fin v \<Rightarrow>
                  if name = ''__proto__''
                  then (d, Some \<lparr> ts = [t], vs = [v], color = pick_color opts (length d) \<rparr>)
                  else
                    (let d1 = (if map_of d name = None
                               then d @ [(name, \<lparr> ts = [], vs = [], color = pick_color opts (length d) \<rparr>)]
                               else d)
                     in (map (\<lambda>(k, s). if k = name
                                        then (k, s\<lparr> ts := ts s @ [t], vs := vs s @ [v] \<rparr>)
                                        else (k, s)) d1,
                         proto))))"

definition add_sample :: "Options \<Rightarrow> buffers \<Rightarrow> sample \<Rightarrow> buffers" where
  "add_sample opts b smp = foldl (add_pair opts (sample_time smp)) b smp"

text \<open>\<^verbatim>\<open>add(samples)\<close>; \<open>now\<close> is what \<^verbatim>\<open>Date.now()\<close> returns during the call.\<close>

definition add :: "real \<Rightarrow> sample list \<Rightarrow> Graph \<Rightarrow> Graph" where
  "add now samples g =
     (let b = foldl (add_sample (options g)) (data g, data_proto g) samples;
          g1 = g\<lparr> data := fst b, data_proto := snd b \<rparr>
      in if isNaN (beginGraphNowMs g1) \<and> length samples > 0 then
           (let maxT = sample_time (last samples)
            in g1\<lparr> beginGraphNowMs := num_sub maxT (Fin 250),
                   beginRenderTimeMs := Fin now \<rparr>)
         else g1)"

text \<open>A sequence of \<^verbatim>\<open>add\<close> calls, each with its wall-clock time.\<close>

fun adds :: "(real \<times> sample list) list \<Rightarrow> Graph \<Rightarrow> Graph" where
  "adds [] g = g"
| "adds ((now, samples) # calls) g = adds calls (add now samples g)"

text \<open>
  The test of the pruning loop, and the loop itself: \<^verbatim>\<open>ts.shift()\<close> and
  \<^verbatim>\<open>vs.shift()\<close> while the first timestamp is too old (\<open>tl\<close> leaves an empty list
  empty, as \<^verbatim>\<open>shift\<close> does).
\<close>

definition too_old :: "real \<Rightarrow> number \<Rightarrow> number \<Rightarrow> bool" where
  "too_old wMs graphNowMs t = num_less (num_add (num_add t (Fin wMs)) (Fin 250)) graphNowMs"

fun prune_loop :: "real \<Rightarrow> number \<Rightarrow> number list \<Rightarrow> real list \<Rightarrow> number list \<times> real list" where
  "prune_loop wMs graphNowMs [] vals = ([], vals)"
| "prune_loop wMs graphNowMs (t # rest) vals =
     (if too_old wMs graphNowMs t then prune_loop wMs graphNowMs rest (tl vals)
      else (t # rest, vals))"

definition prune :: "real \<Rightarrow> number \<Rightarrow> Series \<Rightarrow> Series" where
  "prune wMs graphNowMs s =
     (case prune_loop wMs graphNowMs (ts s) (vs s) of
        (tms, vals) \<Rightarrow> s\<lparr> ts := tms, vs := vals \<rparr>)"

definition graphNow :: "Graph \<Rightarrow> real \<Rightarrow> number" where
  "graphNow g now = num_add (beginGraphNowMs g) (num_sub (Fin now) (beginRenderTimeMs g))"

text \<open>
  The points \<^verbatim>\<open>renderGraphLines\<close> draws for one series, before scaling: index \<open>j\<close>
  runs over \<open>ts\<close> and reads \<open>vs\<close> at the same index.
\<close>

definition plotted :: "Series \<Rightarrow> (number \<times> real) list" where
  "plotted s = zip (ts s) (vs s)"


text \<open>The invariant of the buffer: every series has as many timestamps as values.\<close>

definition aligned :: "(string \<times> Series) list \<Rightarrow> bool" where
  "aligned d = list_all (\<lambda>(k, s). length (ts s) = length (vs s)) d"




section \<open>Graph: axis scaling\<close>

text \<open>
  The axis functions on reals, for the arguments at which no operation rounds. \<open>None\<close>
  is returned where the JavaScript leaves the finite numbers: \<^verbatim>\<open>Math.log10\<close> of zero
  or of a negative number, and a division by zero. The same functions in double
  arithmetic follow in the next section.
\<close>

definition niceNum :: "real \<Rightarrow> bool \<Rightarrow> real option" where
  "niceNum rng rnd =
     (if rng \<le> 0 then None
      else
        (let exponent = \<lfloor>log 10 rng\<rfloor>;
             fraction = rng / (10 powr real_of_int exponent);
             niceFraction =
               (if rnd then
                  (if fraction < 1.5 then 1
                   else if fraction < 3 then 2
                   else if fraction < 7 then 5
                   else 10)
                else if fraction \<le> 1 then 1
                else if fraction \<le> 2 then 2
                else if fraction \<le> 5 then 5
                else 10)
         in Some (niceFraction * (10 powr real_of_int exponent))))"

text \<open>The object \<^verbatim>\<open>{ min, max, spacing }\<close>, over the reals here and over doubles below.\<close>

record 'a AxisScaling =
  axis_min :: 'a
  axis_max :: 'a
  spacing :: 'a

definition getAxisScaling :: "real \<Rightarrow> real \<Rightarrow> real \<Rightarrow> real AxisScaling option" where
  "getAxisScaling lo hi ticks =
     (case niceNum (hi - lo) False of
        None \<Rightarrow> None
      | Some rng \<Rightarrow>
          (if ticks - 1 = 0 then None
           else (case niceNum (rng / (ticks - 1)) True of
                   None \<Rightarrow> None
                 | Some tickSpacing \<Rightarrow>
                     Some \<lparr> axis_min = real_of_int \<lfloor>lo / tickSpacing\<rfloor> * tickSpacing,
                            axis_max = (real_of_int \<lfloor>hi / tickSpacing\<rfloor> + 1) * tickSpacing,
                            spacing = tickSpacing \<rparr>)))"

text \<open>\<^verbatim>\<open>Number.MAX_VALUE\<close> and \<^verbatim>\<open>Number.MIN_VALUE\<close> of IEEE 754 doubles.\<close>

definition MAX_VALUE :: real where "MAX_VALUE = (2 ^ 53 - 1) * 2 ^ 971"
definition MIN_VALUE :: real where "MIN_VALUE = 1 / 2 ^ 1074"

text \<open>
  The pair \<^verbatim>\<open>[min, max]\<close> that \<^verbatim>\<open>getYAxisScaling\<close> reduces the buffer to.
  \<^verbatim>\<open>Math.min\<close> and \<^verbatim>\<open>Math.max\<close> return one of their arguments, so nothing rounds.
\<close>

definition rawMinMax :: "(string \<times> Series) list \<Rightarrow> real \<times> real" where
  "rawMinMax d =
     foldl (\<lambda>acc (k, s). foldl (\<lambda>(lo, hi) v. (min v lo, max v hi)) acc (vs s))
       (MAX_VALUE, MIN_VALUE) d"

section \<open>Graph: the axis in double arithmetic\<close>

text \<open>
  The drawing path of \<^verbatim>\<open>render\<close> computes the axis and its ticks in IEEE 754
  doubles, and whether its tick loop ends depends on how they round. A double is a
  real on the binary64 grid, an infinity, or \<^verbatim>\<open>NaN\<close>. \<open>Finite 0\<close> stands for both
  zeros: on this path the sign of a zero shows only when something is divided by it,
  and the divisors are a power of ten, a tick spacing (a positive constant times a
  power of ten) and \<^verbatim>\<open>maxTicks - 1\<close>, none of which is \<^verbatim>\<open>-0\<close>; so a quotient by
  zero takes the sign of the dividend.
\<close>

datatype double = Finite real | PosInf | NegInf | NotANumber

text \<open>
  \<open>fl x\<close> is the double nearest to the real \<open>x\<close>: \<open>x\<close> is rounded to a multiple of
  the spacing of the grid around it (\<open>2^(e - 52)\<close> for \<open>2^e \<le> |x| < 2^(e + 1)\<close>, and
  \<open>2^(- 1074)\<close> below \<open>2^(- 1022)\<close>), a tie going to the even multiple, and a result
  beyond \<^verbatim>\<open>Number.MAX_VALUE\<close> is an infinity.
\<close>

definition pow2 :: "int \<Rightarrow> real" where
  "pow2 k = (if 0 \<le> k then 2 ^ nat k else 1 / 2 ^ nat (- k))"

definition round_half_even :: "real \<Rightarrow> int" where
  "round_half_even y =
     (let f = \<lfloor>y\<rfloor>; r = y - real_of_int f
      in if r < 1 / 2 then f else if 1 / 2 < r then f + 1 else if even f then f else f + 1)"

definition quantum :: "real \<Rightarrow> real" where
  "quantum x = pow2 (max \<lfloor>log 2 \<bar>x\<bar>\<rfloor> (- 1022) - 52)"

definition fl :: "real \<Rightarrow> double" where
  "fl x =
     (if x = 0 then Finite 0
      else
        (let r = quantum x * real_of_int (round_half_even (x / quantum x))
         in if MAX_VALUE < r then PosInf
            else if r < - MAX_VALUE then NegInf
            else Finite r))"

text \<open>
  The operators \<^verbatim>\<open>+\<close>, \<^verbatim>\<open>-\<close>, \<^verbatim>\<open>*\<close>, \<^verbatim>\<open>/\<close>, \<^verbatim>\<open>Math.floor\<close>, \<^verbatim>\<open>Math.abs\<close>, \<^verbatim>\<open><\<close> and
  \<^verbatim>\<open><=\<close> on doubles: the exact result rounded by \<open>fl\<close>, with the IEEE 754 rules for
  the infinities and \<^verbatim>\<open>NaN\<close>.
\<close>

fun negative :: "double \<Rightarrow> bool" where
  "negative (Finite x) = (x < 0)"
| "negative NegInf = True"
| "negative _ = False"

definition infinity :: "bool \<Rightarrow> double" where
  "infinity neg = (if neg then NegInf else PosInf)"

fun d_add :: "double \<Rightarrow> double \<Rightarrow> double" where
  "d_add (Finite x) (Finite y) = fl (x + y)"
| "d_add NotANumber _ = NotANumber"
| "d_add _ NotANumber = NotANumber"
| "d_add PosInf NegInf = NotANumber"
| "d_add NegInf PosInf = NotANumber"
| "d_add PosInf _ = PosInf"
| "d_add _ PosInf = PosInf"
| "d_add NegInf _ = NegInf"
| "d_add _ NegInf = NegInf"

fun d_neg :: "double \<Rightarrow> double" where
  "d_neg (Finite x) = Finite (- x)"
| "d_neg PosInf = NegInf"
| "d_neg NegInf = PosInf"
| "d_neg NotANumber = NotANumber"

definition d_sub :: "double \<Rightarrow> double \<Rightarrow> double" where
  "d_sub a b = d_add a (d_neg b)"

fun d_mul :: "double \<Rightarrow> double \<Rightarrow> double" where
  "d_mul (Finite x) (Finite y) = fl (x * y)"
| "d_mul NotANumber _ = NotANumber"
| "d_mul _ NotANumber = NotANumber"
| "d_mul (Finite x) b = (if x = 0 then NotANumber else infinity (negative (Finite x) \<noteq> negative b))"
| "d_mul a (Finite y) = (if y = 0 then NotANumber else infinity (negative a \<noteq> negative (Finite y)))"
| "d_mul a b = infinity (negative a \<noteq> negative b)"

fun d_div :: "double \<Rightarrow> double \<Rightarrow> double" where
  "d_div (Finite x) (Finite y) =
     (if y = 0 then (if x = 0 then NotANumber else infinity (x < 0)) else fl (x / y))"
| "d_div NotANumber _ = NotANumber"
| "d_div _ NotANumber = NotANumber"
| "d_div (Finite x) b = Finite 0"
| "d_div a (Finite y) = infinity (negative a \<noteq> (y < 0))"
| "d_div a b = NotANumber"

fun d_floor :: "double \<Rightarrow> double" where
  "d_floor (Finite x) = Finite (real_of_int \<lfloor>x\<rfloor>)"
| "d_floor a = a"

fun d_abs :: "double \<Rightarrow> double" where
  "d_abs (Finite x) = Finite \<bar>x\<bar>"
| "d_abs NegInf = PosInf"
| "d_abs a = a"

fun d_less :: "double \<Rightarrow> double \<Rightarrow> bool" where
  "d_less (Finite x) (Finite y) = (x < y)"
| "d_less NotANumber _ = False"
| "d_less _ NotANumber = False"
| "d_less a PosInf = (a \<noteq> PosInf)"
| "d_less NegInf b = (b \<noteq> NegInf)"
| "d_less a b = False"

fun d_le :: "double \<Rightarrow> double \<Rightarrow> bool" where
  "d_le NotANumber _ = False"
| "d_le _ NotANumber = False"
| "d_le a b = (a = b \<or> d_less a b)"

text \<open>
  ECMAScript fixes \<^verbatim>\<open>Math.log10(x)\<close> and \<^verbatim>\<open>Math.pow(10, x)\<close> at the arguments listed
  in the two definitions below and leaves every other result an approximation chosen
  by the implementation. These approximations are the two fields of a platform.
\<close>

record Platform =
  log10_approx :: "real \<Rightarrow> double"
  pow10_approx :: "real \<Rightarrow> double"

definition Math_log10 :: "Platform \<Rightarrow> double \<Rightarrow> double" where
  "Math_log10 P a =
     (case a of
        NotANumber \<Rightarrow> NotANumber
      | NegInf \<Rightarrow> NotANumber
      | PosInf \<Rightarrow> PosInf
      | Finite x \<Rightarrow>
          if x < 0 then NotANumber
          else if x = 0 then NegInf
          else if x = 1 then Finite 0
          else log10_approx P x)"

text \<open>\<^verbatim>\<open>Math.pow(10, a)\<close>, the only use of \<^verbatim>\<open>Math.pow\<close> in \<^verbatim>\<open>niceNum\<close>.\<close>

definition Math_pow10 :: "Platform \<Rightarrow> double \<Rightarrow> double" where
  "Math_pow10 P a =
     (case a of
        NotANumber \<Rightarrow> NotANumber
      | PosInf \<Rightarrow> PosInf
      | NegInf \<Rightarrow> Finite 0
      | Finite x \<Rightarrow> if x = 0 then Finite 1 else pow10_approx P x)"

text \<open>A platform whose two functions are correctly rounded.\<close>

definition correctly_rounded :: Platform where
  "correctly_rounded =
     \<lparr> log10_approx = (\<lambda>x. fl (log 10 x)), pow10_approx = (\<lambda>x. fl (10 powr x)) \<rparr>"

text \<open>
  \<^verbatim>\<open>niceNum\<close> and \<^verbatim>\<open>getAxisScaling\<close> once more, operation by operation in doubles.
  The constants 1, 1.5, 2, 3, 5, 7 and 10 are doubles.
\<close>

definition niceNum64 :: "Platform \<Rightarrow> double \<Rightarrow> bool \<Rightarrow> double" where
  "niceNum64 P rng rnd =
     (let exponent = d_floor (Math_log10 P rng);
          fraction = d_div rng (Math_pow10 P exponent);
          niceFraction =
            (if rnd then
               (if d_less fraction (Finite 1.5) then 1
                else if d_less fraction (Finite 3) then 2
                else if d_less fraction (Finite 7) then 5
                else 10)
             else if d_le fraction (Finite 1) then 1
             else if d_le fraction (Finite 2) then 2
             else if d_le fraction (Finite 5) then 5
             else 10)
      in d_mul (Finite niceFraction) (Math_pow10 P exponent))"

definition getAxisScaling64 ::
  "Platform \<Rightarrow> double \<Rightarrow> double \<Rightarrow> double \<Rightarrow> double AxisScaling" where
  "getAxisScaling64 P lo hi ticks =
     (let rng = niceNum64 P (d_sub hi lo) False;
          tickSpacing = niceNum64 P (d_div rng (d_sub ticks (Finite 1))) True;
          niceMin = d_mul (d_floor (d_div lo tickSpacing)) tickSpacing;
          niceMax = d_mul (d_add (d_floor (d_div hi tickSpacing)) (Finite 1)) tickSpacing
      in \<lparr> axis_min = niceMin, axis_max = niceMax, spacing = tickSpacing \<rparr>)"

text \<open>
  \<^verbatim>\<open>getYAxisScaling()\<close>. The buffered values and \<open>maxTicks\<close> are the doubles they
  are in the JavaScript, and \<^verbatim>\<open>1e-6\<close> is the double nearest to \<open>10^(- 6)\<close>.
\<close>

definition getYAxisScaling :: "Platform \<Rightarrow> Graph \<Rightarrow> double AxisScaling" where
  "getYAxisScaling P g =
     (case rawMinMax (data g) of (lo, hi) \<Rightarrow>
        if d_less (d_abs (d_sub (Finite lo) (Finite hi))) (fl (1 / 10 ^ 6))
        then getAxisScaling64 P (d_sub (Finite lo) (Finite 1)) (d_add (Finite hi) (Finite 1))
               (Finite (maxTicks (options g)))
        else getAxisScaling64 P (Finite lo) (Finite hi) (Finite (maxTicks (options g))))"

text \<open>
  The first loop of \<^verbatim>\<open>getTicks\<close>,
  \<^verbatim>\<open>for (let i = axis.min; i <= axis.max; i += axis.spacing) ticks.push(i)\<close>.
  Nothing bounds the number of its rounds: \<open>None\<close> is the loop that never ends.
  \<^verbatim>\<open>getTicks\<close> then turns each tick into a string, in a loop over the array that is
  not modelled.
\<close>

partial_function (option) getTicks_loop ::
  "double \<Rightarrow> double \<Rightarrow> double \<Rightarrow> double list \<Rightarrow> double list option" where
  "getTicks_loop i hi step ticks =
     (if d_le i hi then getTicks_loop (d_add i step) hi step (ticks @ [i]) else Some ticks)"

definition getTicks :: "double AxisScaling \<Rightarrow> double list option" where
  "getTicks axis = getTicks_loop (axis_min axis) (axis_max axis) (spacing axis) []"

text \<open>
  \<^verbatim>\<open>renderGraph\<close> starts with the axis and its ticks. The calls that follow
  (\<^verbatim>\<open>renderAxisLabels\<close>, \<^verbatim>\<open>renderGridLines\<close>, \<^verbatim>\<open>renderGraphLines\<close>), like
  \<^verbatim>\<open>renderKey\<close> before it, are loops over the keys, the ticks and the buffered points
  around canvas calls, and are not modelled. The result is the array of ticks, or
  \<open>None\<close> when the tick loop never ends.
\<close>

definition renderGraph :: "Platform \<Rightarrow> Graph \<Rightarrow> double list option" where
  "renderGraph P g = getTicks (getYAxisScaling P g)"

section \<open>Graph: render\<close>

text \<open>
  \<^verbatim>\<open>render()\<close> as the value it returns and the buffer it leaves; \<open>now\<close> is
  \<^verbatim>\<open>Date.now()\<close>. The value is \<open>None\<close> when the call never returns; the buffer is
  pruned before the drawing starts, so it is the pruned one in that case too.
  Clearing the canvas and setting up the context act on the canvas only.
\<close>

definition render :: "Platform \<Rightarrow> real \<Rightarrow> Graph \<Rightarrow> bool option \<times> Graph" where
  "render P now g =
     (if isNaN (beginGraphNowMs g) then (Some False, g)
      else
        (let graphNowMs = graphNow g now;
             g1 = g\<lparr> data := map (\<lambda>(k, s). (k, prune (windowMs (options g)) graphNowMs s)) (data g) \<rparr>;
             allEmpty = list_all (\<lambda>(k, s). length (ts s) = 0) (data g1)
         in if allEmpty then (Some False, g1)
            else (case renderGraph P g1 of
                    None \<Rightarrow> (None, g1)
                  | Some ticks \<Rightarrow> (Some True, g1))))"


section \<open>Example states\<close>

text \<open>A history of two snapshots after one UNDO: the cursor is on the first of them.\<close>

definition undone_example :: StateHistoryReducerState where
  "undone_example =
     stateHistoryReducer (appends [[], DEFAULT_GRID_TALL] initialState) Undo"

text \<open>
  Small grids: a 2\<times>4 panel beside a 2\<times>2 panel, a single panel against the right
  edge of the six columns, and a single panel against the left edge.
\<close>

definition two_panels :: "GridItemType list" where
  "two_panels = [mk_item ''a'' FIELD_VIEW 0 0 2 4, mk_item ''b'' GRAPH_VIEW 2 0 2 2]"

definition right_panel :: "GridItemType list" where
  "right_panel = [mk_item ''a'' FIELD_VIEW 4 0 2 4]"

definition left_panel :: "GridItemType list" where
  "left_panel = [mk_item ''a'' FIELD_VIEW 0 0 2 4]"

text \<open>The panel \<^verbatim>\<open>addItem\<close> builds when the layout is locked, at a given place.\<close>

definition new_panel :: "string \<Rightarrow> ConfigurableView \<Rightarrow> int \<Rightarrow> int \<Rightarrow> GridItemType" where
  "new_panel i v px py =
     \<lparr> item_id = i, view = v,
       layout = \<lparr> layout_x = px, layout_y = py, layout_w = 2, layout_h = 4,
                  isDraggable = False, isResizable = False \<rparr> \<rparr>"

text \<open>
  Graphs built by one \<^verbatim>\<open>add\<close> at wall-clock time 0 on a fresh graph with the default
  options: three timed samples of a series \<open>a\<close>; two timed samples with the values
  \<open>10^16\<close> and \<open>10^16 + 2\<close>, both doubles; one timed sample with the value \<open>10^16\<close>;
  two timed samples with negative values; and a batch whose first sample carries no
  time.
\<close>

definition window_example :: Graph where
  "window_example =
     add 0 [[(''time'', Fin 0), (''a'', Fin 1)],
            [(''time'', Fin 300), (''a'', Fin 2)],
            [(''time'', Fin 6000), (''a'', Fin 3)]] (reset DEFAULT_OPTIONS)"

definition window_series :: Series where
  "window_series = \<lparr> ts = [Fin 0, Fin 300, Fin 6000], vs = [1, 2, 3], color = Some ''#2979ff'' \<rparr>"

definition stalled_example :: Graph where
  "stalled_example =
     add 0 [[(''time'', Fin 0), (''a'', Fin 10000000000000000)],
            [(''time'', Fin 10), (''a'', Fin 10000000000000002)]] (reset DEFAULT_OPTIONS)"

definition constant_example :: Graph where
  "constant_example =
     add 0 [[(''time'', Fin 0), (''a'', Fin 10000000000000000)]] (reset DEFAULT_OPTIONS)"

definition negative_example :: Graph where
  "negative_example =
     add 0 [[(''time'', Fin 0), (''a'', Fin (- 5))],
            [(''time'', Fin 10), (''a'', Fin (- 3))]] (reset DEFAULT_OPTIONS)"


section \<open>Properties of the history reducer\<close>

lemma at_end_initial: "at_end initialState"
  by (simp add: at_end_def initialState_def)

lemma at_end_append: "at_end s \<Longrightarrow> at_end (stateHistoryReducer s (Append p))"
  by (auto simp: at_end_def Let_def js_index_def nth_append)

lemma at_end_appends: "at_end s \<Longrightarrow> at_end (appends ps s)"
  by (induction ps arbitrary: s) (auto simp: at_end_append simp del: stateHistoryReducer.simps)

lemma active_undo: "active s \<Longrightarrow> active (stateHistoryReducer s Undo)"
  by (auto simp: active_def Let_def)

lemma active_redo: "active s \<Longrightarrow> active (stateHistoryReducer s Redo)"
  by (auto simp: active_def Let_def)

lemma hist_undo: "gridStateHistory (stateHistoryReducer s Undo) = gridStateHistory s"
  by (simp add: Let_def)

lemma hist_redo: "gridStateHistory (stateHistoryReducer s Redo) = gridStateHistory s"
  by (simp add: Let_def)

lemma pos_undo:
  "currentHistoryPosition (stateHistoryReducer s Undo) =
     (if currentHistoryPosition s > 0 then currentHistoryPosition s - 1
      else currentHistoryPosition s)"
  by (simp add: Let_def)

lemma pos_redo:
  "currentHistoryPosition (stateHistoryReducer s Redo) =
     (if currentHistoryPosition s < int (length (gridStateHistory s)) - 1
      then currentHistoryPosition s + 1 else currentHistoryPosition s)"
  by (simp add: Let_def)

text \<open>\<open>n\<close> UNDOs move the cursor down by \<open>n\<close>, stopping at 0, and keep the snapshots.\<close>

lemma undos_props:
  "active s \<Longrightarrow>
     active (undos n s) \<and> gridStateHistory (undos n s) = gridStateHistory s \<and>
     currentHistoryPosition (undos n s) = max 0 (currentHistoryPosition s - int n)"
proof (induction n arbitrary: s)
  case 0
  then show ?case by (simp add: active_def)
next
  case (Suc n)
  have a: "active (stateHistoryReducer s Undo)" using Suc.prems by (rule active_undo)
  from Suc.IH[OF a] Suc.prems show ?case
    by (auto simp: hist_undo pos_undo active_def simp del: stateHistoryReducer.simps)
qed

text \<open>\<open>n\<close> REDOs move the cursor up by \<open>n\<close>, stopping at the last snapshot.\<close>

lemma redos_props:
  "active s \<Longrightarrow>
     active (redos n s) \<and> gridStateHistory (redos n s) = gridStateHistory s \<and>
     currentHistoryPosition (redos n s) =
       min (int (length (gridStateHistory s)) - 1) (currentHistoryPosition s + int n)"
proof (induction n arbitrary: s)
  case 0
  then show ?case by (simp add: active_def)
next
  case (Suc n)
  have a: "active (stateHistoryReducer s Redo)" using Suc.prems by (rule active_redo)
  from Suc.IH[OF a] Suc.prems show ?case
    by (auto simp: hist_redo pos_redo active_def simp del: stateHistoryReducer.simps)
qed

lemma undos_empty:
  "gridStateHistory s = [] \<Longrightarrow> currentHistoryPosition s = - 1 \<Longrightarrow> undos n s = s"
  by (induction n) auto

lemma redos_empty:
  "gridStateHistory s = [] \<Longrightarrow> currentHistoryPosition s = - 1 \<Longrightarrow> redos n s = s"
  by (induction n) auto

lemma at_end_active: "at_end s \<Longrightarrow> gridStateHistory s \<noteq> [] \<Longrightarrow> active s"
  by (cases "gridStateHistory s" rule: rev_cases)
     (auto simp: at_end_def active_def js_index_def nth_append)

lemma at_end_roundtrip:
  assumes "at_end s"
  shows "currentHead (redos n (undos n s)) = currentHead s"
proof (cases "gridStateHistory s = []")
  case True
  with assms have "currentHistoryPosition s = - 1" by (simp add: at_end_def)
  with True show ?thesis by (simp add: undos_empty redos_empty)
next
  case False
  with assms have a: "active s" by (rule at_end_active)
  note u = undos_props[OF a, of n]
  from u have au: "active (undos n s)" by simp
  note r = redos_props[OF au, of n]
  have pos: "currentHistoryPosition (redos n (undos n s)) = currentHistoryPosition s"
    using u r assms False by (auto simp: at_end_def)
  have hist: "gridStateHistory (redos n (undos n s)) = gridStateHistory s"
    using u r by simp
  from r have "active (redos n (undos n s))" by simp
  then have "currentHead (redos n (undos n s)) =
      js_index (gridStateHistory s) (currentHistoryPosition s)"
    by (simp add: active_def pos hist)
  also have "\<dots> = currentHead s" using a by (simp add: active_def)
  finally show ?thesis .
qed

text \<open>
  C2 (history round trip). Start from the initial state of the reducer, dispatch any
  list of APPENDs, then \<open>n\<close> UNDOs followed by \<open>n\<close> REDOs: the current head is the
  head the APPENDs left. When the history holds fewer than \<open>n + 1\<close> snapshots the
  UNDOs stop at the first one and the REDOs stop at the last one.
\<close>

theorem history_round_trip:
  "currentHead (redos n (undos n (appends ps initialState))) =
     currentHead (appends ps initialState)"
  by (rule at_end_roundtrip) (rule at_end_appends, rule at_end_initial)

text \<open>
  C3 (redo truncation). In a state whose cursor is valid and below the last index (as
  an UNDO leaves it), an APPEND that is applied (\<open>shouldAppend\<close> holds) keeps the
  snapshots up to the old cursor, drops every later one and puts the payload last; the
  new cursor is the last index; and a REDO dispatched next returns the same state.
\<close>

theorem append_after_undo_truncates:
  assumes "0 \<le> currentHistoryPosition s"
    and "currentHistoryPosition s < int (length (gridStateHistory s)) - 1"
    and "shouldAppend s p"
  shows "gridStateHistory (stateHistoryReducer s (Append p)) =
           take (nat (currentHistoryPosition s + 1)) (gridStateHistory s) @ [p] \<and>
         currentHistoryPosition (stateHistoryReducer s (Append p)) =
           int (length (gridStateHistory (stateHistoryReducer s (Append p)))) - 1 \<and>
         stateHistoryReducer (stateHistoryReducer s (Append p)) Redo =
           stateHistoryReducer s (Append p)"
  using assms by (auto simp: Let_def splice_def min_def max_def)

lemma undone_example_eq:
  "undone_example =
     \<lparr> gridStateHistory = [[], DEFAULT_GRID_TALL],
       actionHistory = [CmdAPPEND, CmdAPPEND, CmdUNDO],
       currentHistoryPosition = 0, currentHead = Some [] \<rparr>"
  by (simp add: undone_example_def initialState_def shouldAppend_def js_index_def Let_def
        DEFAULT_GRID_TALL_def)

theorem append_after_undo_truncates_witness:
  "0 \<le> currentHistoryPosition undone_example \<and>
   currentHistoryPosition undone_example < int (length (gridStateHistory undone_example)) - 1 \<and>
   shouldAppend undone_example [mk_item ''e'' CAMERA_VIEW 0 0 2 4] \<and>
   gridStateHistory (stateHistoryReducer undone_example (Append [mk_item ''e'' CAMERA_VIEW 0 0 2 4])) =
     [[], [mk_item ''e'' CAMERA_VIEW 0 0 2 4]] \<and>
   currentHistoryPosition
     (stateHistoryReducer undone_example (Append [mk_item ''e'' CAMERA_VIEW 0 0 2 4])) = 1 \<and>
   stateHistoryReducer
     (stateHistoryReducer undone_example (Append [mk_item ''e'' CAMERA_VIEW 0 0 2 4])) Redo =
     stateHistoryReducer undone_example (Append [mk_item ''e'' CAMERA_VIEW 0 0 2 4])"
proof -
  have h1: "0 \<le> currentHistoryPosition undone_example"
    by (simp add: undone_example_eq)
  have h2: "currentHistoryPosition undone_example
              < int (length (gridStateHistory undone_example)) - 1"
    by (simp add: undone_example_eq)
  have h3: "shouldAppend undone_example [mk_item ''e'' CAMERA_VIEW 0 0 2 4]"
    by (simp add: undone_example_eq shouldAppend_def js_index_def Let_def)
  from append_after_undo_truncates[OF h1 h2 h3] h1 h2 h3 show ?thesis
    by (simp add: undone_example_eq)
qed

section \<open>Properties of the panel placement\<close>

subsection \<open>The reduction with \<^verbatim>\<open>maxArray\<close>\<close>

lemma maxArray_pair:
  "maxArray [b, l] [b', l'] =
     Inr (if b > b' then [b, l] else if b' > b then [b', l']
          else if l > l' then [b, l] else if l' > l then [b', l'] else [b, l])"
  by (simp add: maxArray_def)

text \<open>
  On two-element arrays the reduction never throws; its result is the start value or
  one of the arrays, and it is a lexicographic upper bound of all of them.
\<close>

lemma reduce_maxArray_pairs:
  "\<exists>b' l'. reduce_maxArray (map (\<lambda>e. [f e, g e]) ps) [b, l] = Inr [b', l'] \<and>
      ((b', l') = (b, l) \<or> (b', l') \<in> (\<lambda>e. (f e, g e)) ` set ps) \<and>
      (b < b' \<or> (b = b' \<and> l \<le> l')) \<and>
      (\<forall>e \<in> set ps. f e < b' \<or> (f e = b' \<and> g e \<le> l'))"
proof (induction ps arbitrary: b l)
  case Nil
  then show ?case by simp
next
  case (Cons e ps)
  let ?b1 = "if b > f e then b else if f e > b then f e
             else if l > g e then b else if g e > l then f e else b"
  let ?l1 = "if b > f e then l else if f e > b then g e
             else if l > g e then l else if g e > l then g e else l"
  have step: "maxArray [b, l] [f e, g e] = Inr [?b1, ?l1]"
    by (simp add: maxArray_pair)
  from Cons.IH[of ?b1 ?l1] obtain b' l' where
    r: "reduce_maxArray (map (\<lambda>e. [f e, g e]) ps) [?b1, ?l1] = Inr [b', l']"
    and m: "(b', l') = (?b1, ?l1) \<or> (b', l') \<in> (\<lambda>e. (f e, g e)) ` set ps"
    and ge: "?b1 < b' \<or> (?b1 = b' \<and> ?l1 \<le> l')"
    and rest: "\<forall>e \<in> set ps. f e < b' \<or> (f e = b' \<and> g e \<le> l')"
    by blast
  have 1: "reduce_maxArray (map (\<lambda>e. [f e, g e]) (e # ps)) [b, l] = Inr [b', l']"
    using r step by simp
  have 2: "(b', l') = (b, l) \<or> (b', l') \<in> (\<lambda>e. (f e, g e)) ` set (e # ps)"
    using m by (auto split: if_splits)
  have 3: "b < b' \<or> (b = b' \<and> l \<le> l')"
    using ge by (auto split: if_splits)
  have 4: "f e < b' \<or> (f e = b' \<and> g e \<le> l')"
    using ge by (auto split: if_splits)
  from 1 2 3 4 rest show ?case by auto
qed

lemma foldl_max_Max:
  "foldl (\<lambda>bottom acc. max bottom acc) (a::int) xs = Max (insert a (set xs))"
proof (induction xs arbitrary: a)
  case Nil
  then show ?case by simp
next
  case (Cons x xs)
  have "Max (insert (max a x) (set xs)) = Max (insert a (insert x (set xs)))"
    by (cases "set xs = {}") (auto simp: max.assoc)
  with Cons show ?case by simp
qed

lemma intervalsIntersect_span:
  "intervalsIntersect (a, b) (c, d) \<longleftrightarrow> span a (b - a) \<inter> span c (d - c) \<noteq> {}"
proof -
  have "span a (b - a) \<inter> span c (d - c) = {max a c ..< min b d}"
    by (auto simp: span_def)
  then show ?thesis by (auto simp: intervalsIntersect_def)
qed

lemma span_below_disjoint: "c + n \<le> a \<Longrightarrow> span a m \<inter> span c n = {}"
  by (auto simp: span_def)

subsection \<open>\<^verbatim>\<open>addItem\<close> with collision refinement\<close>

text \<open>What \<^verbatim>\<open>addItem\<close> returns, given the pair the reduction ends with.\<close>

lemma addItem_eq:
  assumes "reduce_maxArray
             (map (\<lambda>e. [layout_y (layout e) + layout_h (layout e),
                         layout_x (layout e) + layout_w (layout e)]) ps) [0, 0] = Inr [b, l]"
  shows "addItem ps locked uuid v =
     Inr (ps @
       [\<lparr> item_id = uuid, view = v,
           layout = \<lparr> layout_x = (if l + 2 > 6 then 0 else l),
                      layout_y = max (if l + 2 > 6 then b else b - 4)
                        (Max (insert 0 ((\<lambda>e. layout_y (layout e) + layout_h (layout e)) `
                           {e \<in> set ps. span (if l + 2 > 6 then 0 else l) 2 \<inter>
                               span (layout_x (layout e)) (layout_w (layout e)) \<noteq> {}}))),
                      layout_w = 2, layout_h = 4,
                      isDraggable = \<not> locked, isResizable = \<not> locked \<rparr> \<rparr>])"
  unfolding addItem_def assms
  by (simp add: Let_def foldl_max_Max intervalsIntersect_span
        ITEM_WIDTH_def ITEM_HEIGHT_def GRID_COL_def)

lemma placed_disjoint:
  assumes "e \<in> set ps"
  shows "span x0 2 \<inter> span (layout_x (layout e)) (layout_w (layout e)) = {} \<or>
         span (max c (Max (insert 0 ((\<lambda>e. layout_y (layout e) + layout_h (layout e)) `
                 {e \<in> set ps. span x0 2 \<inter>
                    span (layout_x (layout e)) (layout_w (layout e)) \<noteq> {}})))) 4
           \<inter> span (layout_y (layout e)) (layout_h (layout e)) = {}"
proof (cases "span x0 2 \<inter> span (layout_x (layout e)) (layout_w (layout e)) = {}")
  case True
  then show ?thesis by blast
next
  case False
  let ?S = "insert 0 ((\<lambda>e. layout_y (layout e) + layout_h (layout e)) `
                 {e \<in> set ps. span x0 2 \<inter>
                    span (layout_x (layout e)) (layout_w (layout e)) \<noteq> {}})"
  have fin: "finite ?S" by simp
  from False assms have "layout_y (layout e) + layout_h (layout e) \<in> ?S" by blast
  then have "layout_y (layout e) + layout_h (layout e) \<le> Max ?S"
    using fin by (rule Max_ge[rotated])
  then have "layout_y (layout e) + layout_h (layout e) \<le> max c (Max ?S)" by simp
  then have "span (max c (Max ?S)) 4 \<inter> span (layout_y (layout e)) (layout_h (layout e)) = {}"
    by (rule span_below_disjoint)
  then show ?thesis by blast
qed

text \<open>
  The version of \<^verbatim>\<open>addItem\<close> with the collision refinement never throws, and the 2\<times>4
  panel it appends is clear of every existing panel: their horizontal spans or their
  vertical spans are disjoint. This holds for every list of panels, overlapping or not,
  with any integer coordinates.
\<close>

theorem addItem_no_overlap:
  "\<exists>new. addItem ps locked uuid v = Inr (ps @ [new]) \<and>
      layout_w (layout new) = 2 \<and> layout_h (layout new) = 4 \<and>
      (\<forall>e \<in> set ps.
         span (layout_x (layout new)) (layout_w (layout new)) \<inter>
           span (layout_x (layout e)) (layout_w (layout e)) = {} \<or>
         span (layout_y (layout new)) (layout_h (layout new)) \<inter>
           span (layout_y (layout e)) (layout_h (layout e)) = {})"
proof -
  obtain b l where r: "reduce_maxArray
             (map (\<lambda>e. [layout_y (layout e) + layout_h (layout e),
                         layout_x (layout e) + layout_w (layout e)]) ps) [0, 0] = Inr [b, l]"
    using reduce_maxArray_pairs[of "\<lambda>e. layout_y (layout e) + layout_h (layout e)"
        "\<lambda>e. layout_x (layout e) + layout_w (layout e)" ps 0 0] by blast
  show ?thesis
    unfolding addItem_eq[OF r]
    by (rule exI, rule conjI, rule refl) (simp add: placed_disjoint)
qed

lemma addItem_two_panels:
  "addItem two_panels True ''n'' CAMERA_VIEW = Inr (two_panels @ [new_panel ''n'' CAMERA_VIEW 2 2])"
  by (simp add: addItem_def two_panels_def mk_item_def new_panel_def maxArray_def
        intervalsIntersect_def ITEM_WIDTH_def ITEM_HEIGHT_def GRID_COL_def)

subsection \<open>\<^verbatim>\<open>addItem\<close> of \<^verbatim>\<open>dash/src/components/ConfigurableLayout.tsx\<close>\<close>

text \<open>
  C1 (placement non-overlap), on the \<^verbatim>\<open>addItem\<close> of
  \<^verbatim>\<open>dash/src/components/ConfigurableLayout.tsx\<close>. That version has no collision step.
  With a 2\<times>4 panel at (0, 0) and a 2\<times>2 panel at (2, 0), the bottom-most panel is the
  first one, its right edge is 2, so the new 2\<times>4 panel is put at column 2 with its
  bottom at 4, that is at (2, 0): on top of the second panel. The version with the
  collision refinement puts it at (2, 2) (\<open>addItem_two_panels\<close>) and never overlaps
  (\<open>addItem_no_overlap\<close>).
\<close>

theorem addItem_dash_overlaps:
  "addItem_dash two_panels True ''n'' CAMERA_VIEW =
     Some (two_panels @ [new_panel ''n'' CAMERA_VIEW 2 0]) \<and>
   overlaps (layout (new_panel ''n'' CAMERA_VIEW 2 0)) (layout (two_panels ! 1))"
  by (simp add: addItem_dash_def two_panels_def mk_item_def new_panel_def
        ITEM_WIDTH_def ITEM_HEIGHT_def overlaps_def span_def)

subsection \<open>Where the new panel goes\<close>

lemma reduce_is_bottom_right:
  assumes nonneg: "\<forall>e\<in>set ps. 0 \<le> layout_y (layout e) + layout_h (layout e) \<and>
                              0 \<le> layout_x (layout e) + layout_w (layout e)"
  shows "reduce_maxArray
             (map (\<lambda>e. [layout_y (layout e) + layout_h (layout e),
                         layout_x (layout e) + layout_w (layout e)]) ps) [0, 0]
         = Inr [bottomMost ps, rightEdgeAtBottom ps]"
proof (cases "ps = []")
  case True
  then show ?thesis by (simp add: bottomMost_def rightEdgeAtBottom_def)
next
  case False
  let ?F = "\<lambda>e. layout_y (layout e) + layout_h (layout e)"
  let ?G = "\<lambda>e. layout_x (layout e) + layout_w (layout e)"
  obtain b l where r: "reduce_maxArray (map (\<lambda>e. [?F e, ?G e]) ps) [0, 0] = Inr [b, l]"
    and m: "(b, l) = (0, 0) \<or> (b, l) \<in> (\<lambda>e. (?F e, ?G e)) ` set ps"
    and ub: "\<forall>e \<in> set ps. ?F e < b \<or> (?F e = b \<and> ?G e \<le> l)"
    using reduce_maxArray_pairs[of ?F ?G ps 0 0] by blast
  from False obtain e1 where e1: "e1 \<in> set ps" by (cases ps) auto
  have ex: "\<exists>e0 \<in> set ps. ?F e0 = b \<and> ?G e0 = l"
  proof (cases "(b, l) = (0, 0)")
    case True
    with ub nonneg e1 have "?F e1 = b \<and> ?G e1 = l" by force
    with e1 show ?thesis by blast
  next
    case False
    with m show ?thesis by auto
  qed
  have b: "Max (?F ` set ps) = b"
  proof (rule Max_eqI)
    show "finite (?F ` set ps)" by simp
    show "y \<le> b" if "y \<in> ?F ` set ps" for y using that ub by force
    show "b \<in> ?F ` set ps" using ex by force
  qed
  have l: "Max (?G ` {e \<in> set ps. ?F e = b}) = l"
  proof (rule Max_eqI)
    show "finite (?G ` {e \<in> set ps. ?F e = b})" by simp
    show "y \<le> l" if "y \<in> ?G ` {e \<in> set ps. ?F e = b}" for y using that ub by force
    show "l \<in> ?G ` {e \<in> set ps. ?F e = b}" using ex by force
  qed
  show ?thesis using r b l False by (simp add: bottomMost_def rightEdgeAtBottom_def)
qed

lemma bottomMost_ge:
  assumes "e \<in> set ps"
  shows "layout_y (layout e) + layout_h (layout e) \<le> bottomMost ps"
proof -
  from assms have "ps \<noteq> []" by auto
  then show ?thesis using assms by (simp add: bottomMost_def)
qed

lemma bottomMost_nonneg:
  assumes "\<forall>e\<in>set ps. 0 \<le> layout_y (layout e) + layout_h (layout e) \<and>
                        0 \<le> layout_x (layout e) + layout_w (layout e)"
  shows "0 \<le> bottomMost ps"
proof (cases ps)
  case Nil
  then show ?thesis by (simp add: bottomMost_def)
next
  case (Cons e es)
  then have "e \<in> set ps" by simp
  from bottomMost_ge[OF this] assms \<open>e \<in> set ps\<close> show ?thesis by force
qed

lemma y_min_le_bottomMost:
  assumes "\<forall>e\<in>set ps. 0 \<le> layout_y (layout e) + layout_h (layout e) \<and>
                        0 \<le> layout_x (layout e) + layout_w (layout e)"
  shows "y_min ps left \<le> bottomMost ps"
  unfolding y_min_def
  by (rule Max.boundedI) (auto simp: bottomMost_ge bottomMost_nonneg[OF assms])

text \<open>
  C6 (wrap or place beside), as the code has it. For panels whose bottom and right
  edges are not negative: when \<open>rightEdgeAtBottom + ITEM_WIDTH > GRID_COL\<close> the new
  panel goes to column 0 with its top at \<open>bottomMost\<close> (so its bottom edge, not its
  top, is one item height below the previous bottom); otherwise it goes to column
  \<open>rightEdgeAtBottom\<close> with its bottom edge tentatively at \<open>bottomMost\<close>, and its top is
  \<open>max (bottomMost - ITEM_HEIGHT) y_min\<close>. With no panels it goes to (0, 0).
\<close>

theorem addItem_placement:
  assumes "\<forall>e\<in>set ps. 0 \<le> layout_y (layout e) + layout_h (layout e) \<and>
                        0 \<le> layout_x (layout e) + layout_w (layout e)"
  shows "\<exists>new. addItem ps locked uuid v = Inr (ps @ [new]) \<and>
      (if rightEdgeAtBottom ps + ITEM_WIDTH > GRID_COL
       then layout_x (layout new) = 0 \<and> layout_y (layout new) = bottomMost ps
       else layout_x (layout new) = rightEdgeAtBottom ps \<and>
            layout_y (layout new) =
              max (bottomMost ps - ITEM_HEIGHT) (y_min ps (rightEdgeAtBottom ps)))"
proof -
  note r = reduce_is_bottom_right[OF assms]
  have "y_min ps 0 \<le> bottomMost ps" using assms by (rule y_min_le_bottomMost)
  then have wrap: "max (bottomMost ps) (y_min ps 0) = bottomMost ps" by simp
  show ?thesis
    unfolding addItem_eq[OF r]
    by (rule exI, rule conjI, rule refl)
       (use wrap in \<open>simp add: y_min_def ITEM_WIDTH_def ITEM_HEIGHT_def GRID_COL_def\<close>)
qed

lemma two_panels_nonneg:
  "\<forall>e\<in>set two_panels. 0 \<le> layout_y (layout e) + layout_h (layout e) \<and>
                         0 \<le> layout_x (layout e) + layout_w (layout e)"
  by (simp add: two_panels_def mk_item_def)

lemma two_panels_bottom_right: "bottomMost two_panels = 4 \<and> rightEdgeAtBottom two_panels = 2"
proof -
  have "reduce_maxArray
          (map (\<lambda>e. [layout_y (layout e) + layout_h (layout e),
                      layout_x (layout e) + layout_w (layout e)]) two_panels) [0, 0]
        = Inr [4, 2]"
    by (simp add: two_panels_def mk_item_def maxArray_def)
  with reduce_is_bottom_right[OF two_panels_nonneg] show ?thesis by simp
qed

theorem addItem_placement_witness:
  "addItem two_panels True ''n'' CAMERA_VIEW =
     Inr (two_panels @ [new_panel ''n'' CAMERA_VIEW 2 2]) \<and>
   rightEdgeAtBottom two_panels = 2 \<and>
   max (bottomMost two_panels - ITEM_HEIGHT) (y_min two_panels (rightEdgeAtBottom two_panels)) = 2"
proof -
  from addItem_placement[OF two_panels_nonneg, of True "''n''" CAMERA_VIEW]
  obtain new where
    n: "addItem two_panels True ''n'' CAMERA_VIEW = Inr (two_panels @ [new])"
    and p: "if rightEdgeAtBottom two_panels + ITEM_WIDTH > GRID_COL
       then layout_x (layout new) = 0 \<and> layout_y (layout new) = bottomMost two_panels
       else layout_x (layout new) = rightEdgeAtBottom two_panels \<and>
            layout_y (layout new) =
              max (bottomMost two_panels - ITEM_HEIGHT)
                (y_min two_panels (rightEdgeAtBottom two_panels))"
    by blast
  from n have new: "new = new_panel ''n'' CAMERA_VIEW 2 2"
    by (simp add: addItem_two_panels)
  from p have "layout_y (layout new) =
      max (bottomMost two_panels - ITEM_HEIGHT) (y_min two_panels (rightEdgeAtBottom two_panels))"
    by (simp add: two_panels_bottom_right ITEM_WIDTH_def GRID_COL_def)
  with new show ?thesis
    by (simp add: addItem_two_panels two_panels_bottom_right new_panel_def)
qed

lemma right_panel_nonneg:
  "\<forall>e\<in>set right_panel. 0 \<le> layout_y (layout e) + layout_h (layout e) \<and>
                          0 \<le> layout_x (layout e) + layout_w (layout e)"
  by (simp add: right_panel_def mk_item_def)

lemma right_panel_bottom_right:
  "bottomMost right_panel = 4 \<and> rightEdgeAtBottom right_panel = 6"
  by (simp add: bottomMost_def rightEdgeAtBottom_def right_panel_def mk_item_def)

lemma left_panel_bottom_right:
  "bottomMost left_panel = 4 \<and> rightEdgeAtBottom left_panel = 2"
  by (simp add: bottomMost_def rightEdgeAtBottom_def left_panel_def mk_item_def)

text \<open>
  The claim as stated fails. A single 2\<times>4 panel at (4, 0) has \<open>bottomMost = 4\<close> and
  \<open>rightEdgeAtBottom = 6\<close>, so the new panel wraps: it is placed at (0, 4), not at
  \<open>y = bottomMost + ITEM_HEIGHT = 8\<close>. A single 2\<times>4 panel at (0, 0) does not wrap: the
  new panel is placed at (2, 0), beside it, not at \<open>y = bottomMost = 4\<close>.
\<close>

theorem addItem_placement_counterexample:
  "rightEdgeAtBottom right_panel + ITEM_WIDTH > GRID_COL \<and>
   addItem right_panel True ''n'' CAMERA_VIEW =
     Inr (right_panel @ [new_panel ''n'' CAMERA_VIEW 0 4]) \<and>
   layout_y (layout (new_panel ''n'' CAMERA_VIEW 0 4)) \<noteq> bottomMost right_panel + ITEM_HEIGHT \<and>
   \<not> rightEdgeAtBottom left_panel + ITEM_WIDTH > GRID_COL \<and>
   addItem left_panel True ''n'' CAMERA_VIEW =
     Inr (left_panel @ [new_panel ''n'' CAMERA_VIEW 2 0]) \<and>
   layout_y (layout (new_panel ''n'' CAMERA_VIEW 2 0)) \<noteq> bottomMost left_panel"
proof -
  have 1: "addItem right_panel True ''n'' CAMERA_VIEW =
             Inr (right_panel @ [new_panel ''n'' CAMERA_VIEW 0 4])"
    by (simp add: addItem_def right_panel_def mk_item_def new_panel_def maxArray_def
          intervalsIntersect_def ITEM_WIDTH_def ITEM_HEIGHT_def GRID_COL_def)
  have 2: "addItem left_panel True ''n'' CAMERA_VIEW =
             Inr (left_panel @ [new_panel ''n'' CAMERA_VIEW 2 0])"
    by (simp add: addItem_def left_panel_def mk_item_def new_panel_def maxArray_def
          intervalsIntersect_def ITEM_WIDTH_def ITEM_HEIGHT_def GRID_COL_def)
  show ?thesis
    by (simp add: 1 2 right_panel_bottom_right left_panel_bottom_right new_panel_def
          ITEM_WIDTH_def ITEM_HEIGHT_def GRID_COL_def)
qed

subsection \<open>Placement by the older \<^verbatim>\<open>addItem\<close>\<close>

lemma Math_max_eq: "Math_max xs = (if xs = [] then None else Some (Max (set xs)))"
  by (induction xs) (auto simp: max_def split: option.splits)

text \<open>
  The older \<^verbatim>\<open>addItem\<close> always returns a grid, and places the new panel by the same
  two cases: beside the bottom-right panel with bottoms aligned, or at column 0 with
  its top at \<open>bottomMost\<close>. It has no step that looks at the panels above.
\<close>

lemma addItem_dash_placement:
  "\<exists>new. addItem_dash ps locked uuid v = Some (ps @ [new]) \<and>
      (if ps \<noteq> [] \<and> rightEdgeAtBottom ps + ITEM_WIDTH \<le> 6
       then layout_x (layout new) = rightEdgeAtBottom ps \<and>
            layout_y (layout new) = bottomMost ps - ITEM_HEIGHT
       else layout_x (layout new) = 0 \<and> layout_y (layout new) = bottomMost ps)"
proof (cases "ps = []")
  case True
  then show ?thesis
    by (simp add: addItem_dash_def bottomMost_def)
next
  case False
  let ?F = "\<lambda>e. layout_y (layout e) + layout_h (layout e)"
  have "Max (?F ` set ps) \<in> ?F ` set ps" using False by (intro Max_in) auto
  then obtain e where "e \<in> set ps" "?F e = Max (?F ` set ps)" by force
  then have ne: "filter (\<lambda>e. ?F e = Max (?F ` set ps)) ps \<noteq> []"
    by (auto simp: filter_empty_conv)
  show ?thesis
    using False ne
    by (simp add: addItem_dash_def Math_max_eq bottomMost_def rightEdgeAtBottom_def
          Let_def ITEM_WIDTH_def)
qed

section \<open>Properties of the sample buffer and the clock anchor\<close>

lemma adds_append: "adds (xs @ ys) g = adds ys (adds xs g)"
  by (induction xs arbitrary: g) auto

lemma add_anchor_fields:
  "beginGraphNowMs (add now samples g) =
     (if isNaN (beginGraphNowMs g) \<and> samples \<noteq> []
      then num_sub (sample_time (last samples)) (Fin 250) else beginGraphNowMs g)"
  "beginRenderTimeMs (add now samples g) =
     (if isNaN (beginGraphNowMs g) \<and> samples \<noteq> []
      then Fin now else beginRenderTimeMs g)"
  by (simp_all add: add_def Let_def)

text \<open>Once \<open>beginGraphNowMs\<close> is a number, no \<^verbatim>\<open>add\<close> changes either anchor field.\<close>

lemma adds_keeps_anchor:
  "\<not> isNaN (beginGraphNowMs g) \<Longrightarrow>
     beginGraphNowMs (adds calls g) = beginGraphNowMs g \<and>
     beginRenderTimeMs (adds calls g) = beginRenderTimeMs g"
proof (induction calls arbitrary: g)
  case Nil
  then show ?case by simp
next
  case (Cons c calls)
  obtain now samples where c: "c = (now, samples)" by (cases c)
  have "\<not> isNaN (beginGraphNowMs (add now samples g))"
    using Cons.prems by (simp add: add_anchor_fields)
  from Cons.IH[OF this] Cons.prems show ?case
    by (simp add: c add_anchor_fields)
qed

lemma isNaN_sub: "isNaN (num_sub a b) \<longleftrightarrow> isNaN a \<or> isNaN b"
  by (cases a; cases b) auto

text \<open>
  Batches that are empty, or whose last sample has no time, leave \<open>beginGraphNowMs\<close>
  at \<^verbatim>\<open>NaN\<close>.
\<close>

lemma adds_stays_unanchored:
  "isNaN (beginGraphNowMs g) \<Longrightarrow>
   \<forall>(n, b) \<in> set pre. b = [] \<or> isNaN (sample_time (last b)) \<Longrightarrow>
   isNaN (beginGraphNowMs (adds pre g))"
proof (induction pre arbitrary: g)
  case Nil
  then show ?case by simp
next
  case (Cons c pre)
  obtain now samples where c: "c = (now, samples)" by (cases c)
  have "isNaN (beginGraphNowMs (add now samples g))"
    using Cons.prems by (auto simp: c add_anchor_fields isNaN_sub)
  from Cons.IH[OF this] Cons.prems show ?case
    by (simp add: c)
qed

text \<open>
  C4 (clock anchor), as the code has it. Take any sequence of \<^verbatim>\<open>add\<close> calls on a
  fresh graph. The first batch that is not empty and whose last sample carries a time
  \<open>t\<close> (every earlier batch being empty or ending in a sample without a time) sets
  \<open>beginGraphNowMs\<close> to \<open>t - 250\<close> and \<open>beginRenderTimeMs\<close> to the wall-clock time of
  that call, and every later call leaves both fields unchanged.
\<close>

theorem anchor_established_once:
  assumes "\<forall>(n, b) \<in> set pre. b = [] \<or> isNaN (sample_time (last b))"
    and "samples \<noteq> []"
    and "sample_time (last samples) = Fin t"
  shows "beginGraphNowMs (adds (pre @ (now, samples) # post) (reset opts)) = Fin (t - 250) \<and>
         beginRenderTimeMs (adds (pre @ (now, samples) # post) (reset opts)) = Fin now"
proof -
  let ?g = "adds pre (reset opts)"
  have "isNaN (beginGraphNowMs (reset opts))" by (simp add: reset_def)
  then have un: "isNaN (beginGraphNowMs ?g)"
    using assms(1) by (rule adds_stays_unanchored)
  have a: "beginGraphNowMs (add now samples ?g) = Fin (t - 250)"
       "beginRenderTimeMs (add now samples ?g) = Fin now"
    using un assms(2,3) by (simp_all add: add_anchor_fields)
  then have "\<not> isNaN (beginGraphNowMs (add now samples ?g))" by simp
  from adds_keeps_anchor[OF this, of post] a show ?thesis
    by (simp add: adds_append)
qed

theorem anchor_established_once_witness:
  "beginGraphNowMs
     (adds ([(50, []), (100, [[(''a'', Fin 1)]])] @
            (200, [[(''time'', Fin 1000), (''a'', Fin 2)]]) #
            [(300, [[(''time'', Fin 2000), (''a'', Fin 3)]])]) (reset DEFAULT_OPTIONS)) = Fin 750 \<and>
   beginRenderTimeMs
     (adds ([(50, []), (100, [[(''a'', Fin 1)]])] @
            (200, [[(''time'', Fin 1000), (''a'', Fin 2)]]) #
            [(300, [[(''time'', Fin 2000), (''a'', Fin 3)]])]) (reset DEFAULT_OPTIONS)) = Fin 200"
proof -
  have h1: "\<forall>(n, b) \<in> set [(50::real, []), (100, [[(''a'', Fin 1)]])].
              b = [] \<or> isNaN (sample_time (last b))"
    by (simp add: sample_time_def)
  have h2: "[[(''time'', Fin 1000), (''a'', Fin 2)]] \<noteq> []" by simp
  have h3: "sample_time (last [[(''time'', Fin 1000), (''a'', Fin 2)]]) = Fin 1000"
    by (simp add: sample_time_def)
  from anchor_established_once[OF h1 h2 h3, of 200
         "[(300, [[(''time'', Fin 2000), (''a'', Fin 3)]])]" DEFAULT_OPTIONS]
  show ?thesis by simp
qed

text \<open>
  The claim as stated fails. The first non-empty batch, added at wall-clock time 100,
  has one sample without a time: \<open>beginGraphNowMs\<close> stays \<^verbatim>\<open>NaN\<close> while
  \<open>beginRenderTimeMs\<close> becomes 100. The next batch, added at 200, changes both fields.
\<close>

theorem anchor_counterexample:
  "beginGraphNowMs (add 100 [[(''a'', Fin 1)]] (reset DEFAULT_OPTIONS)) = NaN \<and>
   beginRenderTimeMs (add 100 [[(''a'', Fin 1)]] (reset DEFAULT_OPTIONS)) = Fin 100 \<and>
   beginGraphNowMs (add 200 [[(''time'', Fin 1000)]]
      (add 100 [[(''a'', Fin 1)]] (reset DEFAULT_OPTIONS))) = Fin 750 \<and>
   beginRenderTimeMs (add 200 [[(''time'', Fin 1000)]]
      (add 100 [[(''a'', Fin 1)]] (reset DEFAULT_OPTIONS))) = Fin 200"
  by (simp add: add_anchor_fields reset_def sample_time_def)

section \<open>Properties of pruning and of \<^verbatim>\<open>render\<close>\<close>

lemma too_old_mono: "num_le t t' \<Longrightarrow> too_old wMs gnow t' \<Longrightarrow> too_old wMs gnow t"
  by (cases t; cases t'; cases gnow) (auto simp: too_old_def)


text \<open>On numbers the test is the comparison \<open>t + windowMs + 250 < graphNowMs\<close>.\<close>

lemma too_old_Fin: "too_old wMs (Fin n) (Fin a) \<longleftrightarrow> a + wMs + 250 < n"
  by (simp add: too_old_def)

text \<open>
  The loop removes the same number of entries from the front of both arrays, all of
  them too old, and stops at an entry that is not.
\<close>

lemma prune_loop_drop:
  "\<exists>k. prune_loop wMs gnow tms vals = (drop k tms, drop k vals) \<and>
       k \<le> length tms \<and>
       (\<forall>t \<in> set (take k tms). too_old wMs gnow t) \<and>
       (case drop k tms of [] \<Rightarrow> True | t # _ \<Rightarrow> \<not> too_old wMs gnow t)"
proof (induction tms arbitrary: vals)
  case Nil
  show ?case by (rule exI[of _ 0]) simp
next
  case (Cons t tms)
  show ?case
  proof (cases "too_old wMs gnow t")
    case True
    from Cons.IH[of "tl vals"] obtain k where
      k: "prune_loop wMs gnow tms (tl vals) = (drop k tms, drop k (tl vals))"
         "k \<le> length tms"
         "\<forall>t \<in> set (take k tms). too_old wMs gnow t"
         "case drop k tms of [] \<Rightarrow> True | t # _ \<Rightarrow> \<not> too_old wMs gnow t"
      by blast
    show ?thesis
      by (rule exI[of _ "Suc k"]) (use True k in \<open>simp add: drop_Suc\<close>)
  next
    case False
    show ?thesis by (rule exI[of _ 0]) (use False in simp)
  qed
qed

lemma sorted_not_old_rest:
  assumes "sorted_wrt num_le (t # tms)" "\<not> too_old wMs gnow t" "t' \<in> set tms"
  shows "\<not> too_old wMs gnow t'"
  using assms too_old_mono by auto

text \<open>On non-decreasing timestamps the loop keeps exactly the entries that are not too old.\<close>

lemma prune_loop_filter:
  assumes "sorted_wrt num_le tms" "length tms = length vals"
  shows "(case prune_loop wMs gnow tms vals of (tms', vals') \<Rightarrow> zip tms' vals') =
           filter (\<lambda>(t, v). \<not> too_old wMs gnow t) (zip tms vals)"
  using assms
proof (induction tms arbitrary: vals)
  case Nil
  then show ?case by simp
next
  case (Cons t tms)
  then obtain v vals' where vals: "vals = v # vals'" by (cases vals) auto
  show ?case
  proof (cases "too_old wMs gnow t")
    case True
    with Cons vals show ?thesis by simp
  next
    case False
    have "\<forall>p \<in> set (zip tms vals'). \<not> too_old wMs gnow (fst p)"
      using sorted_not_old_rest[OF Cons.prems(1) False] by (auto dest: set_zip_leftD)
    then have "filter (\<lambda>(t, v). \<not> too_old wMs gnow t) (zip tms vals') = zip tms vals'"
      by (auto simp: filter_id_conv)
    with False vals show ?thesis by simp
  qed
qed

lemma data_add:
  "data (add now samples g) = fst (foldl (add_sample (options g)) (data g, data_proto g) samples)"
  by (simp add: add_def Let_def)

text \<open>
  \<^verbatim>\<open>add\<close> pushes a timestamp and a value together and the loop shifts them together,
  so every buffer built from a fresh graph by \<^verbatim>\<open>add\<close> and \<^verbatim>\<open>render\<close> is aligned.
\<close>

lemma aligned_reset: "aligned (data (reset opts))"
  by (simp add: aligned_def reset_def)

lemma aligned_add_pair: "aligned (fst b) \<Longrightarrow> aligned (fst (add_pair opts t b nv))"
  by (cases b; cases nv; cases "snd nv")
     (auto simp: aligned_def add_pair_def Let_def list_all_iff split: if_splits)

lemma aligned_foldl_add_pair:
  "aligned (fst b) \<Longrightarrow> aligned (fst (foldl (add_pair opts t) b smp))"
  by (induction smp arbitrary: b) (simp_all add: aligned_add_pair)

lemma aligned_add_sample: "aligned (fst b) \<Longrightarrow> aligned (fst (add_sample opts b smp))"
  by (simp add: add_sample_def aligned_foldl_add_pair)

lemma aligned_foldl_add_sample:
  "aligned (fst b) \<Longrightarrow> aligned (fst (foldl (add_sample opts) b samples))"
  by (induction samples arbitrary: b) (simp_all add: aligned_add_sample)

lemma aligned_add: "aligned (data g) \<Longrightarrow> aligned (data (add now samples g))"
  by (simp add: data_add aligned_foldl_add_sample)

lemma aligned_prune:
  assumes "length (ts s) = length (vs s)"
  shows "length (ts (prune wMs gnow s)) = length (vs (prune wMs gnow s))"
proof -
  obtain k where "prune_loop wMs gnow (ts s) (vs s) = (drop k (ts s), drop k (vs s))"
    using prune_loop_drop[of wMs gnow "ts s" "vs s"] by blast
  with assms show ?thesis by (simp add: prune_def)
qed

text \<open>The buffer \<^verbatim>\<open>render\<close> leaves, whether or not the call returns.\<close>

lemma snd_render:
  "snd (render P now g) =
     (if isNaN (beginGraphNowMs g) then g
      else g\<lparr> data := map (\<lambda>(k, s). (k, prune (windowMs (options g)) (graphNow g now) s))
                          (data g) \<rparr>)"
  by (simp add: render_def Let_def split: option.splits)

lemma aligned_render: "aligned (data g) \<Longrightarrow> aligned (data (snd (render P now g)))"
  by (auto simp: snd_render aligned_def list_all_iff aligned_prune)

lemma render_data:
  "\<not> isNaN (beginGraphNowMs g) \<Longrightarrow>
   data (snd (render P now g)) =
     map (\<lambda>(k, s). (k, prune (windowMs (options g)) (graphNow g now) s)) (data g)"
  by (simp add: snd_render)

text \<open>
  C5 (window pruning). Take a graph whose anchor is set and a series of it whose
  timestamps are non-decreasing (and as many as its values). After \<^verbatim>\<open>render\<close> at
  wall-clock time \<open>now\<close> the series is the pruned one; its plotted points are exactly
  the buffered entries whose timestamp \<open>t\<close> does not satisfy
  \<open>t + windowMs + 250 < graphNowMs\<close>, in their order, and they are what is left of the
  buffer after removing entries from its front.
\<close>

theorem prune_window:
  assumes "\<not> isNaN (beginGraphNowMs g)"
    and "(k, s) \<in> set (data g)"
    and "sorted_wrt num_le (ts s)"
    and "length (ts s) = length (vs s)"
  shows "(k, prune (windowMs (options g)) (graphNow g now) s) \<in> set (data (snd (render P now g))) \<and>
         plotted (prune (windowMs (options g)) (graphNow g now) s) =
           filter (\<lambda>(t, v). \<not> too_old (windowMs (options g)) (graphNow g now) t) (plotted s) \<and>
         (\<exists>n. plotted (prune (windowMs (options g)) (graphNow g now) s) = drop n (plotted s))"
proof -
  let ?w = "windowMs (options g)" and ?n = "graphNow g now"
  have 1: "(k, prune ?w ?n s) \<in> set (data (snd (render P now g)))"
    using assms(1,2) by (force simp: render_data)
  have 2: "plotted (prune ?w ?n s) = filter (\<lambda>(t, v). \<not> too_old ?w ?n t) (plotted s)"
    using prune_loop_filter[OF assms(3,4), of ?w ?n]
    by (simp add: plotted_def prune_def split: prod.splits)
  obtain n where "prune_loop ?w ?n (ts s) (vs s) = (drop n (ts s), drop n (vs s))"
    using prune_loop_drop[of ?w ?n "ts s" "vs s"] by blast
  then have 3: "plotted (prune ?w ?n s) = drop n (plotted s)"
    by (simp add: plotted_def prune_def drop_zip)
  from 1 2 3 show ?thesis by blast
qed

lemma window_example_eq:
  "window_example =
     \<lparr> options = DEFAULT_OPTIONS, data = [(''a'', window_series)], data_proto = None,
       beginGraphNowMs = Fin 5750, beginRenderTimeMs = Fin 0 \<rparr>"
  by (simp add: window_example_def window_series_def add_def add_sample_def add_pair_def
        sample_time_def pick_color_def reset_def DEFAULT_OPTIONS_def Let_def)

theorem prune_window_witness:
  "(''a'', prune 5000 (Fin 5750) window_series)
     \<in> set (data (snd (render correctly_rounded 0 window_example))) \<and>
   plotted (prune 5000 (Fin 5750) window_series) = [(Fin 6000, 3)] \<and>
   plotted window_series = [(Fin 0, 1), (Fin 300, 2), (Fin 6000, 3)]"
proof -
  have h1: "\<not> isNaN (beginGraphNowMs window_example)"
    by (simp add: window_example_eq)
  have h2: "(''a'', window_series) \<in> set (data window_example)"
    by (simp add: window_example_eq)
  have h3: "sorted_wrt num_le (ts window_series)"
    by (simp add: window_series_def)
  have h4: "length (ts window_series) = length (vs window_series)"
    by (simp add: window_series_def)
  have w: "windowMs (options window_example) = 5000"
    by (simp add: window_example_eq DEFAULT_OPTIONS_def)
  have n: "graphNow window_example 0 = Fin 5750"
    by (simp add: window_example_eq graphNow_def)
  from prune_window[OF h1 h2 h3 h4, where P = correctly_rounded and now = 0] show ?thesis
    by (simp add: w n plotted_def window_series_def too_old_def)
qed

lemma prune_idem: "prune wMs gnow (prune wMs gnow s) = prune wMs gnow s"
proof -
  obtain k where k: "prune_loop wMs gnow (ts s) (vs s) = (drop k (ts s), drop k (vs s))"
    and stop: "case drop k (ts s) of [] \<Rightarrow> True | t # _ \<Rightarrow> \<not> too_old wMs gnow t"
    using prune_loop_drop[of wMs gnow "ts s" "vs s"] by blast
  have "prune_loop wMs gnow (drop k (ts s)) (drop k (vs s)) = (drop k (ts s), drop k (vs s))"
    using stop by (cases "drop k (ts s)") auto
  then show ?thesis by (simp add: prune_def k)
qed

text \<open>
  What \<^verbatim>\<open>render\<close> returns: false when the anchor is not set or every series is empty
  after pruning; otherwise true, provided the tick loop of \<^verbatim>\<open>renderGraph\<close> ends.
\<close>

lemma fst_render:
  "fst (render P now g) =
     (if isNaN (beginGraphNowMs g) \<or>
         list_all (\<lambda>(k, s). ts (prune (windowMs (options g)) (graphNow g now) s) = []) (data g)
      then Some False
      else if renderGraph P (snd (render P now g)) = None then None
      else Some True)"
  by (auto simp: render_def Let_def list_all_iff split: option.splits)

text \<open>
  A second call at the same wall-clock time, with no \<^verbatim>\<open>add\<close> in between, prunes
  nothing more.
\<close>

lemma render_twice: "snd (render P now (snd (render P now g))) = snd (render P now g)"
proof (cases "isNaN (beginGraphNowMs g)")
  case True
  then show ?thesis by (simp add: snd_render)
next
  case False
  have "(\<lambda>(k, s). (k, prune wMs gnow s)) \<circ> (\<lambda>(k, s). (k, prune wMs gnow s))
        = (\<lambda>(k::string, s). (k, prune wMs gnow s))" for wMs gnow
    by (auto simp: fun_eq_iff prune_idem)
  with False show ?thesis
    by (simp add: snd_render graphNow_def)
qed

section \<open>Samples without a time\<close>







text \<open>
  The pairs named \<^verbatim>\<open>__proto__\<close> never reach the own keys: the prototype holds the
  last of them alone.
\<close>

lemma add_pair_proto:
  "v \<noteq> NaN \<Longrightarrow>
     add_pair opts t (d, p) (''__proto__'', v) =
       (d, Some \<lparr> ts = [t], vs = (case v of Fin r \<Rightarrow> [r] | NaN \<Rightarrow> []),
                  color = pick_color opts (length d) \<rparr>)"
  by (cases v) (simp_all add: add_pair_def)











section \<open>Properties of the axis scaling\<close>

lemma nice_fraction_cases:
  "(if b then (if c1 then 1 else if c2 then 2 else if c3 then 5 else 10)
    else if c4 then 1 else if c5 then 2 else if c6 then 5 else (10::real)) \<in> {1, 2, 5, 10}"
  by simp

text \<open>A nice number is 1, 2, 5 or 10 times ten to the floor of the decimal logarithm.\<close>

lemma niceNum_value:
  assumes "0 < r"
  shows "\<exists>f. f \<in> {1, 2, 5, 10} \<and> niceNum r b = Some (f * 10 powr real_of_int \<lfloor>log 10 r\<rfloor>)"
proof -
  let ?p = "10 powr real_of_int \<lfloor>log 10 r\<rfloor>"
  let ?f = "if b then (if r / ?p < 1.5 then 1 else if r / ?p < 3 then 2
                       else if r / ?p < 7 then 5 else 10)
            else if r / ?p \<le> 1 then 1 else if r / ?p \<le> 2 then 2
            else if r / ?p \<le> 5 then 5 else (10::real)"
  have "niceNum r b = Some (?f * ?p)"
    using assms by (simp add: niceNum_def Let_def split del: if_split)
  moreover have "?f \<in> {1, 2, 5, 10}" by (rule nice_fraction_cases)
  ultimately show ?thesis by blast
qed

lemma niceNum_pos:
  assumes "0 < r"
  shows "\<exists>x. niceNum r b = Some x \<and> 0 < x"
proof -
  from niceNum_value[OF assms, of b] obtain f where
    f: "f \<in> {1, 2, 5, 10}" and v: "niceNum r b = Some (f * 10 powr real_of_int \<lfloor>log 10 r\<rfloor>)"
    by blast
  from f have "0 < f" by auto
  then have "0 < f * 10 powr real_of_int \<lfloor>log 10 r\<rfloor>" by simp
  with v show ?thesis by blast
qed

lemma niceNum_form:
  assumes "niceNum r b = Some x"
  shows "\<exists>f k. f \<in> {1, 2, 5, 10} \<and> x = f * 10 powr real_of_int k"
proof -
  have r: "0 < r"
  proof (rule ccontr)
    assume "\<not> 0 < r"
    then have "niceNum r b = None" by (simp add: niceNum_def)
    with assms show False by simp
  qed
  from niceNum_value[OF r, of b] assms show ?thesis by auto
qed

lemma floor_scale_bounds:
  fixes a sp :: real
  assumes "0 < sp"
  shows "real_of_int \<lfloor>a / sp\<rfloor> * sp \<le> a" and "a < (real_of_int \<lfloor>a / sp\<rfloor> + 1) * sp"
proof -
  have "real_of_int \<lfloor>a / sp\<rfloor> * sp \<le> (a / sp) * sp"
    by (rule mult_right_mono) (use assms in auto)
  then show "real_of_int \<lfloor>a / sp\<rfloor> * sp \<le> a"
    using assms by simp
  have "a / sp < real_of_int \<lfloor>a / sp\<rfloor> + 1" by linarith
  then have "(a / sp) * sp < (real_of_int \<lfloor>a / sp\<rfloor> + 1) * sp"
    using assms by (rule mult_strict_right_mono)
  then show "a < (real_of_int \<lfloor>a / sp\<rfloor> + 1) * sp"
    using assms by simp
qed

text \<open>
  For \<open>lo < hi\<close> and more than one tick the axis is defined, its spacing is a positive
  nice number, and it covers \<open>[lo, hi]\<close> with its maximum strictly above \<open>hi\<close>.
\<close>

lemma getAxisScaling_bounds:
  assumes "lo < hi" and "1 < ticks"
  shows "\<exists>a. getAxisScaling lo hi ticks = Some a \<and> 0 < spacing a \<and>
             axis_min a \<le> lo \<and> hi < axis_max a \<and>
             (\<exists>f k. f \<in> {1, 2, 5, 10} \<and> spacing a = f * 10 powr real_of_int k)"
proof -
  from assms(1) obtain r where r: "niceNum (hi - lo) False = Some r" "0 < r"
    using niceNum_pos[of "hi - lo" False] by auto
  from r(2) assms(2) have "0 < r / (ticks - 1)" by simp
  then obtain sp where sp: "niceNum (r / (ticks - 1)) True = Some sp" "0 < sp"
    using niceNum_pos[of "r / (ticks - 1)" True] by auto
  show ?thesis
    using r sp assms(2) floor_scale_bounds[OF sp(2)] niceNum_form[OF sp(1)]
    by (simp add: getAxisScaling_def)
qed

text \<open>
  C8 (axis scaling on 10, 47 with 7 ticks). The range 37 is rounded up to 50, the
  spacing 50/6 to 10, and the axis runs from 10 to 50: its minimum is at most 10, its
  maximum at least 47, and its spacing is \<open>1 \<times> 10^1\<close>.
\<close>

theorem axis_scaling_example:
  "getAxisScaling 10 47 7 = Some \<lparr>axis_min = 10, axis_max = 50, spacing = 10\<rparr> \<and>
   (\<exists>a. getAxisScaling 10 47 7 = Some a \<and> axis_min a \<le> 10 \<and> 47 \<le> axis_max a \<and>
      (\<exists>f k. f \<in> {1, 2, 5, 10} \<and> spacing a = f * 10 powr real_of_int k))"
proof -
  have e1: "\<lfloor>log 10 (37::real)\<rfloor> = 1"
    by (subst floor_log_eq_powr_iff) auto
  have n1: "niceNum 37 False = Some 50"
    by (simp add: niceNum_def e1 Let_def)
  have e2: "\<lfloor>log 10 (25 / 3 :: real)\<rfloor> = 0"
    by (subst floor_log_eq_powr_iff) auto
  have n2: "niceNum (50 / 6) True = Some 10"
    by (simp add: niceNum_def e2 Let_def)
  have v: "getAxisScaling 10 47 7 = Some \<lparr>axis_min = 10, axis_max = 50, spacing = 10\<rparr>"
    using n1 n2 by (simp add: getAxisScaling_def)
  have "(1::real) \<in> {1, 2, 5, 10} \<and> (10::real) = 1 * 10 powr real_of_int 1" by simp
  then have "\<exists>f k. f \<in> {1, 2, 5, 10} \<and> (10::real) = f * 10 powr real_of_int k" by blast
  with v show ?thesis by simp
qed

lemma inner_bounds:
  fixes lo0 hi0 lo hi :: real
  shows "foldl (\<lambda>(lo, hi) v. (min v lo, max v hi)) (lo0, hi0) xs = (lo, hi) \<Longrightarrow>
     lo \<le> lo0 \<and> hi0 \<le> hi \<and> (\<forall>v \<in> set xs. lo \<le> v \<and> v \<le> hi)"
proof (induction xs arbitrary: lo0 hi0)
  case Nil
  then show ?case by simp
next
  case (Cons x xs)
  from Cons.prems
  have "foldl (\<lambda>(lo, hi) v. (min v lo, max v hi)) (min x lo0, max x hi0) xs = (lo, hi)"
    by simp
  from Cons.IH[OF this] show ?case by auto
qed

lemma outer_bounds:
  fixes lo0 hi0 lo hi :: real
  shows "foldl (\<lambda>acc (k, s). foldl (\<lambda>(lo, hi) v. (min v lo, max v hi)) acc (vs s))
           (lo0, hi0) d = (lo, hi) \<Longrightarrow>
     lo \<le> lo0 \<and> hi0 \<le> hi \<and> (\<forall>(k, s) \<in> set d. \<forall>v \<in> set (vs s). lo \<le> v \<and> v \<le> hi)"
proof (induction d arbitrary: lo0 hi0)
  case Nil
  then show ?case by simp
next
  case (Cons p d)
  obtain k s where p: "p = (k, s)" by (cases p)
  obtain lo1 hi1 where
    i: "foldl (\<lambda>(lo, hi) v. (min v lo, max v hi)) (lo0, hi0) (vs s) = (lo1, hi1)"
    by (cases "foldl (\<lambda>(lo, hi) v. (min v lo, max v hi)) (lo0, hi0) (vs s)")
  from Cons.prems
  have "foldl (\<lambda>acc (k, s). foldl (\<lambda>(lo, hi) v. (min v lo, max v hi)) acc (vs s))
          (lo1, hi1) d = (lo, hi)"
    by (simp add: p i)
  from Cons.IH[OF this] inner_bounds[OF i] show ?case
    by (auto simp: p)
qed

lemma MIN_VALUE_pos: "0 < MIN_VALUE"
  by (simp add: MIN_VALUE_def)

lemma rawMinMax_bounds:
  "MIN_VALUE \<le> snd (rawMinMax d)"
  "(k, s) \<in> set d \<Longrightarrow> v \<in> set (vs s) \<Longrightarrow> fst (rawMinMax d) \<le> v \<and> v \<le> snd (rawMinMax d)"
proof -
  obtain lo hi where r: "rawMinMax d = (lo, hi)" by (cases "rawMinMax d")
  note b = outer_bounds[OF r[unfolded rawMinMax_def]]
  from b show "MIN_VALUE \<le> snd (rawMinMax d)" by (simp add: r)
  from b show "(k, s) \<in> set d \<Longrightarrow> v \<in> set (vs s) \<Longrightarrow>
      fst (rawMinMax d) \<le> v \<and> v \<le> snd (rawMinMax d)"
    by (auto simp: r)
qed

section \<open>Properties of the double arithmetic\<close>

lemma pow2_powr: "pow2 k = 2 powr real_of_int k"
proof (cases "0 \<le> k")
  case True
  have "(2::real) ^ nat k = 2 powr real (nat k)" by (rule powr_realpow[symmetric]) simp
  also have "real (nat k) = real_of_int k" using True by simp
  finally show ?thesis using True by (simp add: pow2_def)
next
  case False
  have "(2::real) ^ nat (- k) = 2 powr real (nat (- k))" by (rule powr_realpow[symmetric]) simp
  also have "real (nat (- k)) = - real_of_int k" using False by simp
  finally have "(2::real) ^ nat (- k) = 2 powr (- real_of_int k)" .
  then have "1 / (2::real) ^ nat (- k) = 2 powr real_of_int k"
    by (simp only: powr_minus_divide) simp
  then show ?thesis using False by (simp only: pow2_def if_False)
qed

lemma pow2_pos: "0 < pow2 k"
  by (simp add: pow2_powr)

lemma binade_eq:
  assumes "pow2 e \<le> \<bar>x\<bar>" "\<bar>x\<bar> < pow2 (e + 1)"
  shows "\<lfloor>log 2 \<bar>x\<bar>\<rfloor> = e"
proof -
  from assms(1) pow2_pos[of e] have pos: "0 < \<bar>x\<bar>" by linarith
  have "2 powr real_of_int e \<le> \<bar>x\<bar> \<and> \<bar>x\<bar> < 2 powr (real_of_int e + 1)"
    using assms by (simp add: pow2_powr)
  then show ?thesis
    using floor_log_eq_powr_iff[OF pos, of 2 e] by simp
qed

lemma MAX_VALUE_big: "2 ^ 64 \<le> MAX_VALUE"
proof -
  have "(2::real) ^ 64 \<le> 1 * 2 ^ 971" by (simp add: power_increasing)
  also have "\<dots> \<le> (2 ^ 53 - 1) * 2 ^ 971" by (intro mult_right_mono) simp_all
  finally show ?thesis by (simp add: MAX_VALUE_def)
qed

lemma fl_eval:
  assumes "pow2 e \<le> \<bar>x\<bar>" "\<bar>x\<bar> < pow2 (e + 1)" "- 1022 \<le> e"
    and "round_half_even (x / pow2 (e - 52)) = m"
    and "\<bar>pow2 (e - 52) * real_of_int m\<bar> \<le> 2 ^ 64"
  shows "fl x = Finite (pow2 (e - 52) * real_of_int m)"
proof -
  from assms(1) pow2_pos[of e] have nz: "x \<noteq> 0" by auto
  have q: "quantum x = pow2 (e - 52)"
    using binade_eq[OF assms(1,2)] assms(3) by (simp add: quantum_def max_def)
  from assms(5) MAX_VALUE_big have "\<bar>pow2 (e - 52) * real_of_int m\<bar> \<le> MAX_VALUE"
    by linarith
  then show ?thesis
    using nz assms(4) by (auto simp: fl_def q Let_def)
qed

lemma fl_zero: "fl 0 = Finite 0"
  by (simp add: fl_def)

lemma fl_2: "fl 2 = Finite 2"
  by (rule fl_eval[where e = 1 and m = 4503599627370496, THEN trans])
     (simp_all add: pow2_def round_half_even_def)

lemma fl_minus_2: "fl (- 2) = Finite (- 2)"
  by (rule fl_eval[where e = 1 and m = "- 4503599627370496", THEN trans])
     (simp_all add: pow2_def round_half_even_def)

lemma fl_6: "fl 6 = Finite 6"
  by (rule fl_eval[where e = 2 and m = 6755399441055744, THEN trans])
     (simp_all add: pow2_def round_half_even_def)

lemma fl_millionth: "fl (1 / 1000000) = Finite (4722366482869645 / 4722366482869645213696)"
  by (rule fl_eval[where e = "- 20" and m = 4722366482869645, THEN trans])
     (simp_all add: pow2_def round_half_even_def)

lemma fl_tenth: "fl (1 / 10) = Finite (3602879701896397 / 36028797018963968)"
  by (rule fl_eval[where e = "- 4" and m = 7205759403792794, THEN trans])
     (simp_all add: pow2_def round_half_even_def)

lemma fl_third: "fl (1 / 3) = Finite (6004799503160661 / 18014398509481984)"
  by (rule fl_eval[where e = "- 2" and m = 6004799503160661, THEN trans])
     (simp_all add: pow2_def round_half_even_def)

lemma fl_fraction:
  "fl ((6004799503160661 / 18014398509481984) / (3602879701896397 / 36028797018963968)) =
     Finite (3752999689475413 / 1125899906842624)"
  by (rule fl_eval[where e = 1 and m = 7505999378950826, THEN trans])
     (simp_all add: pow2_def round_half_even_def)

lemma fl_half: "fl (18014398509481985 / 36028797018963968) = Finite (1 / 2)"
  by (rule fl_eval[where e = "- 1" and m = 4503599627370496, THEN trans])
     (simp_all add: pow2_def round_half_even_def)

lemma fl_1e16: "fl 10000000000000000 = Finite 10000000000000000"
  by (rule fl_eval[where e = 53 and m = 5000000000000000, THEN trans])
     (simp_all add: pow2_def round_half_even_def)

lemma fl_1e16_minus_1: "fl 9999999999999999 = Finite 10000000000000000"
  by (rule fl_eval[where e = 53 and m = 5000000000000000, THEN trans])
     (simp_all add: pow2_def round_half_even_def)

lemma fl_1e16_plus_1: "fl 10000000000000001 = Finite 10000000000000000"
  by (rule fl_eval[where e = 53 and m = 5000000000000000, THEN trans])
     (simp_all add: pow2_def round_half_even_def)

lemma fl_1e16_plus_half: "fl (20000000000000001 / 2) = Finite 10000000000000000"
  by (rule fl_eval[where e = 53 and m = 5000000000000000, THEN trans])
     (simp_all add: pow2_def round_half_even_def)

lemma fl_1e16_plus_2: "fl 10000000000000002 = Finite 10000000000000002"
  by (rule fl_eval[where e = 53 and m = 5000000000000001, THEN trans])
     (simp_all add: pow2_def round_half_even_def)

lemma fl_2e16: "fl 20000000000000000 = Finite 20000000000000000"
  by (rule fl_eval[where e = 54 and m = 5000000000000000, THEN trans])
     (simp_all add: pow2_def round_half_even_def)

lemma fl_2e16_plus_4: "fl 20000000000000004 = Finite 20000000000000004"
  by (rule fl_eval[where e = 54 and m = 5000000000000001, THEN trans])
     (simp_all add: pow2_def round_half_even_def)

lemma fl_2e16_plus_5: "fl 20000000000000005 = Finite 20000000000000004"
  by (rule fl_eval[where e = 54 and m = 5000000000000001, THEN trans])
     (simp_all add: pow2_def round_half_even_def)

text \<open>Below \<open>2^(- 1022)\<close> the grid has the spacing \<open>2^(- 1074)\<close>.\<close>

lemma fl_subnormal_eval:
  assumes "x \<noteq> 0" "\<bar>x\<bar> < pow2 (- 1022)"
    and "round_half_even (x / pow2 (- 1074)) = m"
    and "\<bar>pow2 (- 1074) * real_of_int m\<bar> \<le> 2 ^ 64"
  shows "fl x = Finite (pow2 (- 1074) * real_of_int m)"
proof -
  from assms(1) have pos: "0 < \<bar>x\<bar>" by simp
  have "log 2 \<bar>x\<bar> < - 1022"
    using assms(2) pos by (simp add: log_less_iff pow2_powr)
  then have "\<lfloor>log 2 \<bar>x\<bar>\<rfloor> < - 1022" by (simp add: floor_less_iff)
  then have q: "quantum x = pow2 (- 1074)"
    by (simp add: quantum_def max_def)
  from assms(4) MAX_VALUE_big have "\<bar>pow2 (- 1074) * real_of_int m\<bar> \<le> MAX_VALUE"
    by linarith
  then show ?thesis
    using assms(1,3) by (auto simp: fl_def q Let_def)
qed

lemma fl_MIN_VALUE: "fl MIN_VALUE = Finite MIN_VALUE"
  unfolding MIN_VALUE_def
  by (rule fl_subnormal_eval[where m = 1, THEN trans])
     (simp_all add: pow2_def round_half_even_def)

lemma fl_1: "fl 1 = Finite 1"
  by (rule fl_eval[where e = 0 and m = 4503599627370496, THEN trans])
     (simp_all add: pow2_def round_half_even_def)

lemma fl_5: "fl 5 = Finite 5"
  by (rule fl_eval[where e = 2 and m = 5629499534213120, THEN trans])
     (simp_all add: pow2_def round_half_even_def)

lemma fl_minus_5: "fl (- 5) = Finite (- 5)"
  by (rule fl_eval[where e = 2 and m = "- 5629499534213120", THEN trans])
     (simp_all add: pow2_def round_half_even_def)

lemma fl_5_plus_MIN_VALUE: "fl (5 + MIN_VALUE) = Finite 5"
  unfolding MIN_VALUE_def
  by (rule fl_eval[where e = 2 and m = 5629499534213120, THEN trans])
     (simp_all add: pow2_def round_half_even_def)

lemma fl_minus_5_minus_MIN_VALUE: "fl (- 5 - MIN_VALUE) = Finite (- 5)"
  unfolding MIN_VALUE_def
  by (rule fl_eval[where e = 2 and m = "- 5629499534213120", THEN trans])
     (simp_all add: pow2_def round_half_even_def)

lemma fl_five_sixths: "fl (5 / 6) = Finite (7505999378950827 / 9007199254740992)"
  by (rule fl_eval[where e = "- 1" and m = 7505999378950827, THEN trans])
     (simp_all add: pow2_def round_half_even_def)

lemma fl_fraction_negative:
  "fl ((7505999378950827 / 9007199254740992) / (3602879701896397 / 36028797018963968)) =
     Finite (4691249611844267 / 562949953421312)"
  by (rule fl_eval[where e = 3 and m = 4691249611844267, THEN trans])
     (simp_all add: pow2_def round_half_even_def)

lemma fl_ten_tenths: "fl (18014398509481985 / 18014398509481984) = Finite 1"
  by (rule fl_eval[where e = 0 and m = 4503599627370496, THEN trans])
     (simp_all add: pow2_def round_half_even_def)

lemma getTicks_loop_stall:
  assumes "d_le i hi" and "d_add i step = i"
  shows "getTicks_loop i hi step ticks = None"
proof (rule ccontr)
  assume "getTicks_loop i hi step ticks \<noteq> None"
  then obtain r where r: "getTicks_loop i hi step ticks = Some r" by auto
  then have "\<not> (i = i \<and> hi = hi \<and> step = step)"
  proof (rule getTicks_loop.raw_induct
      [where P = "\<lambda>i' hi' step' ticks' r'. \<not> (i' = i \<and> hi' = hi \<and> step' = step)", rotated])
    fix f j h s t y
    assume IH: "\<And>a b c d e. f a b c d = Some e \<Longrightarrow> \<not> (a = i \<and> b = hi \<and> c = step)"
      and body: "(if d_le j h then f (d_add j s) h s (t @ [j]) else Some t) = Some y"
    show "\<not> (j = i \<and> h = hi \<and> s = step)"
    proof
      assume "j = i \<and> h = hi \<and> s = step"
      with assms body have "f i hi step (t @ [i]) = Some y" by simp
      with IH show False by blast
    qed
  qed
  then show False by simp
qed

text \<open>
  Between a quarter and a half the rounding stays between a quarter and a half, and
  keeps the sign.
\<close>

lemma round_half_even_bounds: "\<lfloor>y\<rfloor> \<le> round_half_even y \<and> round_half_even y \<le> \<lceil>y\<rceil>"
proof (cases "y = real_of_int \<lfloor>y\<rfloor>")
  case True
  then have "y - real_of_int \<lfloor>y\<rfloor> = 0" by simp
  then have "round_half_even y = \<lfloor>y\<rfloor>" by (simp add: round_half_even_def Let_def)
  then show ?thesis by (simp add: floor_le_ceiling)
next
  case False
  then have "\<lceil>y\<rceil> = \<lfloor>y\<rfloor> + 1" by (simp add: ceiling_altdef)
  then show ?thesis by (simp add: round_half_even_def Let_def)
qed

lemma fl_quarter_to_half:
  assumes "1 / 4 \<le> \<bar>x\<bar>" "\<bar>x\<bar> < 1 / 2"
  shows "\<exists>r. fl x = Finite r \<and> 1 / 4 \<le> \<bar>r\<bar> \<and> \<bar>r\<bar> \<le> 1 / 2 \<and> (0 < x \<longleftrightarrow> 0 < r)"
proof -
  have b: "\<lfloor>log 2 \<bar>x\<bar>\<rfloor> = - 2"
    using assms by (intro binade_eq) (simp_all add: pow2_def)
  have q: "quantum x = 1 / 2 ^ 54"
    by (simp add: quantum_def b pow2_def)
  define y where "y = x * 2 ^ 54"
  define m where "m = round_half_even y"
  have m: "\<lfloor>y\<rfloor> \<le> m" "m \<le> \<lceil>y\<rceil>"
    using round_half_even_bounds[of y] by (simp_all add: m_def)
  have r: "quantum x * real_of_int (round_half_even (x / quantum x)) = real_of_int m / 2 ^ 54"
    by (simp add: q m_def y_def)
  have bounds: "2 ^ 52 \<le> \<bar>m\<bar> \<and> \<bar>m\<bar> \<le> 2 ^ 53 \<and> (0 < x \<longleftrightarrow> 0 < m)"
  proof (cases "0 < x")
    case True
    with assms have "2 ^ 52 \<le> y" "y \<le> 2 ^ 53" by (simp_all add: y_def)
    then have "2 ^ 52 \<le> \<lfloor>y\<rfloor>" "\<lceil>y\<rceil> \<le> 2 ^ 53" by (simp_all add: le_floor_iff ceiling_le_iff)
    with m have "2 ^ 52 \<le> m" "m \<le> 2 ^ 53" by linarith+
    with True show ?thesis by simp
  next
    case False
    with assms have "- (2 ^ 53) \<le> y" "y \<le> - (2 ^ 52)" by (simp_all add: y_def)
    then have "- (2 ^ 53) \<le> \<lfloor>y\<rfloor>" "\<lceil>y\<rceil> \<le> - (2 ^ 52)"
      by (simp_all add: le_floor_iff ceiling_le_iff)
    with m have "- (2 ^ 53) \<le> m" "m \<le> - (2 ^ 52)" by linarith+
    with False show ?thesis by simp
  qed
  then have rb: "1 / 4 \<le> \<bar>real_of_int m / 2 ^ 54\<bar>" "\<bar>real_of_int m / 2 ^ 54\<bar> \<le> 1 / 2"
    "0 < x \<longleftrightarrow> 0 < real_of_int m / 2 ^ 54"
    by (simp_all add: abs_if split: if_splits)
  have "(1 / 2 :: real) \<le> 2 ^ 64" by simp
  with rb(2) MAX_VALUE_big have "\<bar>real_of_int m / 2 ^ 54\<bar> \<le> MAX_VALUE" by linarith
  moreover from assms have "x \<noteq> 0" by auto
  ultimately have "fl x = Finite (real_of_int m / 2 ^ 54)"
    using r by (auto simp: fl_def Let_def)
  with rb show ?thesis by blast
qed

section \<open>The axis and the ticks on three buffers\<close>

text \<open>The correctly rounded platform on the three arguments used below.\<close>

lemma log10_2_bounds: "1 / 4 \<le> log 10 2 \<and> log 10 2 < 1 / 2"
proof -
  have "log 10 (2 ^ 4) = 4 * log 10 2" using log_nat_power[of 2 10 4] by simp
  moreover have "log 10 10 \<le> log 10 (2 ^ 4)" by (subst log_le_cancel_iff) simp_all
  moreover have "log 10 (2 ^ 2) = 2 * log 10 2" using log_nat_power[of 2 10 2] by simp
  moreover have "log 10 (2 ^ 2) < log 10 10" by (subst log_less_cancel_iff) simp_all
  ultimately show ?thesis by simp
qed

lemma log10_third_bounds:
  "- (1 / 2) < log 10 (6004799503160661 / 18014398509481984) \<and>
   log 10 (6004799503160661 / 18014398509481984) \<le> - (1 / 4)"
proof -
  let ?c = "6004799503160661 / 18014398509481984 :: real"
  have "log 10 (?c ^ 4) = 4 * log 10 ?c" by (simp add: log_nat_power)
  moreover have "log 10 (?c ^ 4) \<le> log 10 (1 / 10)"
    by (subst log_le_cancel_iff) (simp_all add: power_divide)
  moreover have "log 10 (?c ^ 2) = 2 * log 10 ?c" by (simp add: log_nat_power)
  moreover have "log 10 (1 / 10) < log 10 (?c ^ 2)"
    by (subst log_less_cancel_iff) (simp_all add: power_divide)
  moreover have "log 10 (1 / 10) = - 1" by (simp add: log_divide)
  ultimately show ?thesis by simp
qed

lemma correctly_rounded_log10_2: "d_floor (log10_approx correctly_rounded 2) = Finite 0"
proof -
  from log10_2_bounds have "1 / 4 \<le> \<bar>log 10 2 :: real\<bar>" "\<bar>log 10 2 :: real\<bar> < 1 / 2" "0 < (log 10 2 :: real)"
    by simp_all
  with fl_quarter_to_half[of "log 10 2"] obtain r where
    "fl (log 10 2) = Finite r" "1 / 4 \<le> \<bar>r\<bar>" "\<bar>r\<bar> \<le> 1 / 2" "0 < r"
    by blast
  moreover from this have "\<lfloor>r\<rfloor> = 0" by (simp add: floor_eq_iff)
  ultimately show ?thesis by (simp add: correctly_rounded_def)
qed

lemma correctly_rounded_log10_third:
  "d_floor (log10_approx correctly_rounded (6004799503160661 / 18014398509481984)) = Finite (- 1)"
proof -
  let ?l = "log 10 (6004799503160661 / 18014398509481984) :: real"
  from log10_third_bounds have "1 / 4 \<le> \<bar>?l\<bar>" "\<bar>?l\<bar> < 1 / 2" "\<not> 0 < ?l"
    by simp_all
  with fl_quarter_to_half[of ?l] obtain r where
    "fl ?l = Finite r" "1 / 4 \<le> \<bar>r\<bar>" "\<bar>r\<bar> \<le> 1 / 2" "\<not> 0 < r"
    by blast
  moreover from this have "\<lfloor>r\<rfloor> = - 1" by (simp add: floor_eq_iff)
  ultimately show ?thesis by (simp add: correctly_rounded_def)
qed

lemma correctly_rounded_pow10: "pow10_approx correctly_rounded (- 1) = fl (1 / 10)"
  by (simp add: correctly_rounded_def powr_minus_divide)

text \<open>
  A range of zero: \<^verbatim>\<open>Math.log10(0)\<close> is minus infinity, the power of ten is 0, the
  fraction \<^verbatim>\<open>0 / 0\<close> is \<^verbatim>\<open>NaN\<close>, every comparison fails, and the nice number is
  \<^verbatim>\<open>10 * 0\<close>.
\<close>

lemma niceNum64_zero: "niceNum64 P (Finite 0) rnd = Finite 0"
  by (simp add: niceNum64_def Math_log10_def Math_pow10_def fl_zero)

lemma getAxisScaling64_no_range:
  "getAxisScaling64 P (Finite 10000000000000000) (Finite 10000000000000000) (Finite 7) =
     \<lparr> axis_min = NotANumber, axis_max = NotANumber, spacing = Finite 0 \<rparr>"
  by (simp add: getAxisScaling64_def d_sub_def fl_zero fl_6 niceNum64_zero infinity_def)

lemma niceNum64_two:
  assumes "d_floor (log10_approx P 2) = Finite 0"
  shows "niceNum64 P (Finite 2) False = Finite 2"
proof -
  have ex: "d_floor (Math_log10 P (Finite 2)) = Finite 0"
    using assms by (simp add: Math_log10_def)
  have p: "Math_pow10 P (Finite 0) = Finite 1" by (simp add: Math_pow10_def)
  have f: "d_div (Finite 2) (Finite 1) = Finite 2" by (simp add: fl_2)
  show ?thesis
    unfolding niceNum64_def Let_def ex p f by (simp add: fl_2)
qed

lemma niceNum64_third:
  assumes "d_floor (log10_approx P (6004799503160661 / 18014398509481984)) = Finite (- 1)"
    and "pow10_approx P (- 1) = fl (1 / 10)"
  shows "niceNum64 P (Finite (6004799503160661 / 18014398509481984)) True = Finite (1 / 2)"
proof -
  have ex: "d_floor (Math_log10 P (Finite (6004799503160661 / 18014398509481984))) = Finite (- 1)"
    using assms(1) by (simp add: Math_log10_def)
  have p: "Math_pow10 P (Finite (- 1)) = Finite (3602879701896397 / 36028797018963968)"
    using assms(2) by (simp add: Math_pow10_def fl_tenth)
  have f: "d_div (Finite (6004799503160661 / 18014398509481984))
             (Finite (3602879701896397 / 36028797018963968)) =
           Finite (3752999689475413 / 1125899906842624)"
    using fl_fraction by simp
  show ?thesis
    unfolding niceNum64_def Let_def ex p f by (simp add: fl_half)
qed

lemma getAxisScaling64_stalled:
  assumes "d_floor (log10_approx P 2) = Finite 0"
    and "d_floor (log10_approx P (6004799503160661 / 18014398509481984)) = Finite (- 1)"
    and "pow10_approx P (- 1) = fl (1 / 10)"
  shows "getAxisScaling64 P (Finite 10000000000000000) (Finite 10000000000000002) (Finite 7) =
     \<lparr> axis_min = Finite 10000000000000000, axis_max = Finite 10000000000000002,
       spacing = Finite (1 / 2) \<rparr>"
proof -
  have r: "d_sub (Finite 10000000000000002) (Finite 10000000000000000) = Finite 2"
    by (simp add: d_sub_def fl_2)
  have t: "d_sub (Finite 7) (Finite 1) = Finite 6"
    by (simp add: d_sub_def fl_6)
  have q: "d_div (Finite 2) (Finite 6) = Finite (6004799503160661 / 18014398509481984)"
    using fl_third by simp
  have lo: "d_mul (d_floor (d_div (Finite 10000000000000000) (Finite (1 / 2)))) (Finite (1 / 2)) =
            Finite 10000000000000000"
    by (simp add: fl_2e16 fl_1e16)
  have hi: "d_mul (d_add (d_floor (d_div (Finite 10000000000000002) (Finite (1 / 2)))) (Finite 1))
              (Finite (1 / 2)) = Finite 10000000000000002"
    by (simp add: fl_2e16_plus_4 fl_2e16_plus_5 fl_1e16_plus_2)
  show ?thesis
    unfolding getAxisScaling64_def Let_def r niceNum64_two[OF assms(1)] t q
      niceNum64_third[OF assms(2,3)] lo hi ..
qed

lemma niceNum64_five:
  assumes "d_floor (log10_approx P 5) = Finite 0"
  shows "niceNum64 P (Finite 5) False = Finite 5"
proof -
  have ex: "d_floor (Math_log10 P (Finite 5)) = Finite 0"
    using assms by (simp add: Math_log10_def)
  have p: "Math_pow10 P (Finite 0) = Finite 1" by (simp add: Math_pow10_def)
  have f: "d_div (Finite 5) (Finite 1) = Finite 5" by (simp add: fl_5)
  show ?thesis
    unfolding niceNum64_def Let_def ex p f by (simp add: fl_5)
qed

lemma niceNum64_five_sixths:
  assumes "d_floor (log10_approx P (7505999378950827 / 9007199254740992)) = Finite (- 1)"
    and "pow10_approx P (- 1) = fl (1 / 10)"
  shows "niceNum64 P (Finite (7505999378950827 / 9007199254740992)) True = Finite 1"
proof -
  have ex: "d_floor (Math_log10 P (Finite (7505999378950827 / 9007199254740992))) = Finite (- 1)"
    using assms(1) by (simp add: Math_log10_def)
  have p: "Math_pow10 P (Finite (- 1)) = Finite (3602879701896397 / 36028797018963968)"
    using assms(2) by (simp add: Math_pow10_def fl_tenth)
  have f: "d_div (Finite (7505999378950827 / 9007199254740992))
             (Finite (3602879701896397 / 36028797018963968)) =
           Finite (4691249611844267 / 562949953421312)"
    using fl_fraction_negative by simp
  show ?thesis
    unfolding niceNum64_def Let_def ex p f by (simp add: fl_ten_tenths)
qed

lemma getAxisScaling64_negative:
  assumes "d_floor (log10_approx P 5) = Finite 0"
    and "d_floor (log10_approx P (7505999378950827 / 9007199254740992)) = Finite (- 1)"
    and "pow10_approx P (- 1) = fl (1 / 10)"
  shows "getAxisScaling64 P (Finite (- 5)) (Finite MIN_VALUE) (Finite 7) =
     \<lparr> axis_min = Finite (- 5), axis_max = Finite 1, spacing = Finite 1 \<rparr>"
proof -
  have r: "d_sub (Finite MIN_VALUE) (Finite (- 5)) = Finite 5"
    using fl_5_plus_MIN_VALUE by (simp add: d_sub_def add.commute)
  have t: "d_sub (Finite 7) (Finite 1) = Finite 6"
    by (simp add: d_sub_def fl_6)
  have q: "d_div (Finite 5) (Finite 6) = Finite (7505999378950827 / 9007199254740992)"
    using fl_five_sixths by simp
  have z: "\<lfloor>MIN_VALUE\<rfloor> = 0"
    by (simp add: MIN_VALUE_def floor_eq_iff)
  have lo: "d_mul (d_floor (d_div (Finite (- 5)) (Finite 1))) (Finite 1) = Finite (- 5)"
    by (simp add: fl_minus_5)
  have hi: "d_mul (d_add (d_floor (d_div (Finite MIN_VALUE) (Finite 1))) (Finite 1)) (Finite 1) =
            Finite 1"
    by (simp add: fl_MIN_VALUE z fl_1)
  show ?thesis
    unfolding getAxisScaling64_def Let_def r niceNum64_five[OF assms(1)] t q
      niceNum64_five_sixths[OF assms(2,3)] lo hi ..
qed

lemma getTicks_stalled:
  "getTicks \<lparr> axis_min = Finite 10000000000000000, axis_max = Finite 10000000000000002,
       spacing = Finite (1 / 2) \<rparr> = None"
  unfolding getTicks_def
  by (simp add: getTicks_loop_stall fl_1e16_plus_half)

lemma MAX_VALUE_above: "10000000000000002 \<le> MAX_VALUE"
proof -
  have "(10000000000000002 :: real) \<le> 2 ^ 64" by simp
  with MAX_VALUE_big show ?thesis by linarith
qed

lemma MIN_VALUE_below: "MIN_VALUE \<le> 1"
  by (simp add: MIN_VALUE_def)

lemma constant_example_eq:
  "constant_example =
     \<lparr> options = DEFAULT_OPTIONS,
       data = [(''a'', \<lparr> ts = [Fin 0], vs = [10000000000000000], color = Some ''#2979ff'' \<rparr>)],
       data_proto = None,
       beginGraphNowMs = Fin (- 250), beginRenderTimeMs = Fin 0 \<rparr>"
  by (simp add: constant_example_def add_def add_sample_def add_pair_def
        sample_time_def pick_color_def reset_def DEFAULT_OPTIONS_def Let_def)

lemma stalled_example_eq:
  "stalled_example =
     \<lparr> options = DEFAULT_OPTIONS,
       data = [(''a'', \<lparr> ts = [Fin 0, Fin 10], vs = [10000000000000000, 10000000000000002],
                        color = Some ''#2979ff'' \<rparr>)],
       data_proto = None,
       beginGraphNowMs = Fin (- 240), beginRenderTimeMs = Fin 0 \<rparr>"
  by (simp add: stalled_example_def add_def add_sample_def add_pair_def
        sample_time_def pick_color_def reset_def DEFAULT_OPTIONS_def Let_def)

lemma rawMinMax_constant:
  "rawMinMax (data constant_example) = (10000000000000000, 10000000000000000)"
  using MAX_VALUE_above MIN_VALUE_below
  by (simp add: constant_example_eq rawMinMax_def min_def max_def)

lemma rawMinMax_stalled:
  "rawMinMax (data stalled_example) = (10000000000000000, 10000000000000002)"
  using MAX_VALUE_above MIN_VALUE_below
  by (simp add: stalled_example_eq rawMinMax_def min_def max_def)

lemma getYAxisScaling_constant:
  "getYAxisScaling P constant_example =
     \<lparr> axis_min = NotANumber, axis_max = NotANumber, spacing = Finite 0 \<rparr>"
proof -
  have 0: "maxTicks (options constant_example) = 7"
    by (simp add: constant_example_eq DEFAULT_OPTIONS_def)
  have 1: "d_less (d_abs (d_sub (Finite 10000000000000000) (Finite 10000000000000000)))
             (fl (1 / 10 ^ 6))"
    by (simp add: d_sub_def fl_zero fl_millionth)
  have 2: "d_sub (Finite 10000000000000000) (Finite 1) = Finite 10000000000000000"
    by (simp add: d_sub_def fl_1e16_minus_1)
  have 3: "d_add (Finite 10000000000000000) (Finite 1) = Finite 10000000000000000"
    by (simp add: fl_1e16_plus_1)
  show ?thesis
    unfolding getYAxisScaling_def rawMinMax_constant 0
    by (simp only: prod.case 1 2 3 if_True getAxisScaling64_no_range)
qed

lemma getYAxisScaling_stalled:
  assumes "d_floor (log10_approx P 2) = Finite 0"
    and "d_floor (log10_approx P (6004799503160661 / 18014398509481984)) = Finite (- 1)"
    and "pow10_approx P (- 1) = fl (1 / 10)"
  shows "getYAxisScaling P stalled_example =
     \<lparr> axis_min = Finite 10000000000000000, axis_max = Finite 10000000000000002,
       spacing = Finite (1 / 2) \<rparr>"
proof -
  have 0: "maxTicks (options stalled_example) = 7"
    by (simp add: stalled_example_eq DEFAULT_OPTIONS_def)
  have 1: "\<not> d_less (d_abs (d_sub (Finite 10000000000000000) (Finite 10000000000000002)))
             (fl (1 / 10 ^ 6))"
    by (simp add: d_sub_def fl_minus_2 fl_millionth)
  show ?thesis
    unfolding getYAxisScaling_def rawMinMax_stalled 0
    by (simp only: prod.case 1 if_False getAxisScaling64_stalled[OF assms])
qed

lemma negative_example_eq:
  "negative_example =
     \<lparr> options = DEFAULT_OPTIONS,
       data = [(''a'', \<lparr> ts = [Fin 0, Fin 10], vs = [- 5, - 3], color = Some ''#2979ff'' \<rparr>)],
       data_proto = None,
       beginGraphNowMs = Fin (- 240), beginRenderTimeMs = Fin 0 \<rparr>"
  by (simp add: negative_example_def add_def add_sample_def add_pair_def
        sample_time_def pick_color_def reset_def DEFAULT_OPTIONS_def Let_def)

lemma rawMinMax_negative: "rawMinMax (data negative_example) = (- 5, MIN_VALUE)"
  using MAX_VALUE_above MIN_VALUE_pos
  by (simp add: negative_example_eq rawMinMax_def min_def max_def)

text \<open>
  On the values \<open>- 5\<close> and \<open>- 3\<close> the raw maximum is \<^verbatim>\<open>Number.MIN_VALUE\<close>,
  \<^verbatim>\<open>max - min\<close> rounds to 5, and the axis runs from \<open>- 5\<close> to 1 with spacing 1: its
  upper bound is positive although every value is negative.
\<close>

lemma getYAxisScaling_negative:
  assumes "d_floor (log10_approx P 5) = Finite 0"
    and "d_floor (log10_approx P (7505999378950827 / 9007199254740992)) = Finite (- 1)"
    and "pow10_approx P (- 1) = fl (1 / 10)"
  shows "getYAxisScaling P negative_example =
     \<lparr> axis_min = Finite (- 5), axis_max = Finite 1, spacing = Finite 1 \<rparr>"
proof -
  have 0: "maxTicks (options negative_example) = 7"
    by (simp add: negative_example_eq DEFAULT_OPTIONS_def)
  have s: "d_sub (Finite (- 5)) (Finite MIN_VALUE) = Finite (- 5)"
    using fl_minus_5_minus_MIN_VALUE by (simp add: d_sub_def)
  have 1: "\<not> d_less (d_abs (d_sub (Finite (- 5)) (Finite MIN_VALUE))) (fl (1 / 10 ^ 6))"
    unfolding s by (simp add: fl_millionth)
  show ?thesis
    unfolding getYAxisScaling_def rawMinMax_negative 0
    by (simp only: prod.case 1 if_False getAxisScaling64_negative[OF assms])
qed

text \<open>
  C9 (the maximum starts from \<^verbatim>\<open>Number.MIN_VALUE\<close>). The raw maximum is at least
  \<^verbatim>\<open>Number.MIN_VALUE\<close>, a positive number (lemmas \<open>rawMinMax_bounds\<close> and
  \<open>MIN_VALUE_pos\<close>), and on the values \<open>- 5\<close> and \<open>- 3\<close> the upper bound of the axis
  is 1 (lemma \<open>getYAxisScaling_negative\<close>). But the upper bound is not always
  positive. Take a buffer that holds the single value \<open>10^16\<close>. The raw minimum and maximum are both
  \<open>10^16\<close>; \<^verbatim>\<open>min - 1\<close> and \<^verbatim>\<open>max + 1\<close> both round to \<open>10^16\<close>; the range and the
  spacing are 0, and \<^verbatim>\<open>getYAxisScaling\<close> returns \<^verbatim>\<open>NaN\<close> for both bounds of the
  axis, on every platform: the upper bound is not above 0.
\<close>

theorem y_axis_max_not_positive:
  "rawMinMax (data constant_example) = (10000000000000000, 10000000000000000) \<and>
   getYAxisScaling P constant_example =
     \<lparr> axis_min = NotANumber, axis_max = NotANumber, spacing = Finite 0 \<rparr> \<and>
   \<not> d_less (Finite 0) (axis_max (getYAxisScaling P constant_example))"
  by (simp add: rawMinMax_constant getYAxisScaling_constant)

lemma render_stalled_buffer: "snd (render P 0 stalled_example) = stalled_example"
  by (simp add: snd_render stalled_example_eq graphNow_def prune_def too_old_def
        DEFAULT_OPTIONS_def)

text \<open>
  C7 (what \<^verbatim>\<open>render\<close> returns). \<^verbatim>\<open>render\<close> does not always return. Take the
  buffer with one series holding \<open>10^16\<close> at time 0 and \<open>10^16 + 2\<close> at time 10, and
  call \<^verbatim>\<open>render\<close> at the wall-clock time of the \<^verbatim>\<open>add\<close>. The anchor is set and
  nothing is pruned, so \<^verbatim>\<open>render\<close> goes on to draw. The axis runs from \<open>10^16\<close> to
  \<open>10^16 + 2\<close> with spacing \<open>1/2\<close>, and \<open>10^16 + 1/2\<close> rounds to \<open>10^16\<close>: the tick
  loop of \<^verbatim>\<open>getTicks\<close> never advances, and \<^verbatim>\<open>render\<close> returns neither true nor
  false. This holds on every platform where \<^verbatim>\<open>Math.floor(Math.log10(2))\<close> is 0,
  \<^verbatim>\<open>Math.floor(Math.log10(2 / 6))\<close> is \<open>- 1\<close> and \<^verbatim>\<open>Math.pow(10, -1)\<close> is the double
  \<^verbatim>\<open>0.1\<close>.
\<close>

theorem render_never_returns:
  assumes "d_floor (log10_approx P 2) = Finite 0"
    and "d_floor (log10_approx P (6004799503160661 / 18014398509481984)) = Finite (- 1)"
    and "pow10_approx P (- 1) = fl (1 / 10)"
  shows "\<not> isNaN (beginGraphNowMs stalled_example) \<and>
         \<not> list_all (\<lambda>(k, s). ts s = []) (data (snd (render P 0 stalled_example))) \<and>
         getYAxisScaling P (snd (render P 0 stalled_example)) =
           \<lparr> axis_min = Finite 10000000000000000, axis_max = Finite 10000000000000002,
             spacing = Finite (1 / 2) \<rparr> \<and>
         d_add (Finite 10000000000000000) (Finite (1 / 2)) = Finite 10000000000000000 \<and>
         fst (render P 0 stalled_example) = None"
proof -
  have 1: "\<not> isNaN (beginGraphNowMs stalled_example)"
    by (simp add: stalled_example_eq)
  have 2: "\<not> list_all (\<lambda>(k, s). ts s = []) (data (snd (render P 0 stalled_example)))"
    by (simp add: render_stalled_buffer) (simp add: stalled_example_eq)
  have 3: "getYAxisScaling P (snd (render P 0 stalled_example)) =
           \<lparr> axis_min = Finite 10000000000000000, axis_max = Finite 10000000000000002,
             spacing = Finite (1 / 2) \<rparr>"
    by (simp only: render_stalled_buffer getYAxisScaling_stalled[OF assms])
  have 4: "d_add (Finite 10000000000000000) (Finite (1 / 2)) = Finite 10000000000000000"
    by (simp add: fl_1e16_plus_half)
  have "renderGraph P (snd (render P 0 stalled_example)) = None"
    by (simp only: renderGraph_def 3 getTicks_stalled)
  moreover have "\<not> list_all (\<lambda>(k, s). ts (prune (windowMs (options stalled_example))
                     (graphNow stalled_example 0) s) = []) (data stalled_example)"
    by (simp add: stalled_example_eq graphNow_def prune_def too_old_def DEFAULT_OPTIONS_def)
  ultimately have 5: "fst (render P 0 stalled_example) = None"
    using 1 by (simp add: fst_render)
  from 1 2 3 4 5 show ?thesis by blast
qed

theorem render_never_returns_witness:
  "\<not> isNaN (beginGraphNowMs stalled_example) \<and>
   \<not> list_all (\<lambda>(k, s). ts s = []) (data (snd (render correctly_rounded 0 stalled_example))) \<and>
   getYAxisScaling correctly_rounded (snd (render correctly_rounded 0 stalled_example)) =
     \<lparr> axis_min = Finite 10000000000000000, axis_max = Finite 10000000000000002,
       spacing = Finite (1 / 2) \<rparr> \<and>
   d_add (Finite 10000000000000000) (Finite (1 / 2)) = Finite 10000000000000000 \<and>
   fst (render correctly_rounded 0 stalled_example) = None"
  by (rule render_never_returns
        [OF correctly_rounded_log10_2 correctly_rounded_log10_third correctly_rounded_pow10])

end
